theory Spec2Isabelle
  imports Complex_Main "HOL-Library.Sublist"
begin

section \<open>Python values used by the vision service\<close>

text \<open>
  The vision service of \<^verbatim>\<open>backend/services/vision_service.py\<close> (as listed in
  \<^verbatim>\<open>documentation/PROJECT_DATASET_MANAGER.md\<close>) is Python. Its strings are modelled as
  \<^typ>\<open>string\<close>, its unbounded integers as \<^typ>\<open>int\<close>, an \<^verbatim>\<open>Optional[T]\<close> as
  \<^typ>\<open>'a option\<close>, and a raised exception as the left summand of a sum type.
\<close>

text \<open>
  The exceptions. \<open>OtherException\<close> stands for any other subclass of \<^verbatim>\<open>Exception\<close>
  (\<^verbatim>\<open>OSError\<close>, \<^verbatim>\<open>asyncio.TimeoutError\<close>, \<^verbatim>\<open>aiohttp.ClientError\<close>, \<^verbatim>\<open>KeyError\<close>),
  and \<open>OtherBaseException\<close> for an exception that is not a subclass of \<^verbatim>\<open>Exception\<close>
  (\<^verbatim>\<open>asyncio.CancelledError\<close>, \<^verbatim>\<open>KeyboardInterrupt\<close>, \<^verbatim>\<open>SystemExit\<close>).
\<close>

datatype exn =
    VisionModelError string
  | ValueError string
  | AttributeError string
  | RecursionError string
  | OtherException string
  | OtherBaseException string

text \<open>\<^verbatim>\<open>str(e)\<close>: every constructor carries the text that \<^verbatim>\<open>str\<close> gives.\<close>

fun str_exn :: "exn \<Rightarrow> string" where
  "str_exn (VisionModelError m) = m"
| "str_exn (ValueError m) = m"
| "str_exn (AttributeError m) = m"
| "str_exn (RecursionError m) = m"
| "str_exn (OtherException m) = m"
| "str_exn (OtherBaseException m) = m"

text \<open>What a clause \<^verbatim>\<open>except Exception\<close> catches.\<close>

fun is_Exception :: "exn \<Rightarrow> bool" where
  "is_Exception (OtherBaseException m) = False"
| "is_Exception e = True"

text \<open>Sequencing: the first raised exception (or thrown error) ends the computation.\<close>

definition and_then :: "'e + 'a \<Rightarrow> ('a \<Rightarrow> 'e + 'b) \<Rightarrow> 'e + 'b" where
  "and_then r f = (case r of Inl e \<Rightarrow> Inl e | Inr v \<Rightarrow> f v)"

definition digit_char :: "nat \<Rightarrow> char" where
  "digit_char d = ''0123456789'' ! d"

function str_nat :: "nat \<Rightarrow> string" where
  "str_nat n = (if n < 10 then [digit_char n] else str_nat (n div 10) @ [digit_char (n mod 10)])"
  by pat_completeness auto
termination
  by (relation "measure id") auto

declare str_nat.simps [simp del]

text \<open>\<^verbatim>\<open>str(i)\<close> of a Python integer, as an f-string formats it.\<close>

definition str_int :: "int \<Rightarrow> string" where
  "str_int i = (if i < 0 then CHR ''-'' # str_nat (nat (- i)) else str_nat (nat i))"

section \<open>The prompt builder\<close>

text \<open>
  The four templates of \<^verbatim>\<open>_build_prompt\<close> end with the same JSON output-format
  instructions; only the example caption differs. The block starts after the line that
  holds the length constraint.
\<close>

definition output_format :: "string \<Rightarrow> string" where
  \<open>output_format example =
     ''\<newline>\<newline>Output format (JSON):\<newline>'' @
     ''{\<newline>'' @
     ''  "caption": "'' @ example @ ''",\<newline>'' @
     ''  "quality": {\<newline>'' @
     ''    "sharpness": 0.0-1.0,\<newline>'' @
     ''    "clarity": 0.0-1.0,\<newline>'' @
     ''    "composition": 0.0-1.0,\<newline>'' @
     ''    "exposure": 0.0-1.0,\<newline>'' @
     ''    "overall": 0.0-1.0\<newline>'' @
     ''  },\<newline>'' @
     ''  "flags": ["list", "of", "quality", "issues"]\<newline>'' @
     ''}''\<close>

text \<open>
  \<^verbatim>\<open>length_constraint = f"Maximum length: {max_length} characters. " if max_length else ""\<close>:
  the constraint is empty when \<^verbatim>\<open>max_length\<close> is \<^verbatim>\<open>None\<close> or \<^verbatim>\<open>0\<close>.
\<close>

definition length_constraint :: "int option \<Rightarrow> string" where
  "length_constraint max_length =
     (case max_length of
        None \<Rightarrow> []
      | Some n \<Rightarrow> if n = 0 then [] else ''Maximum length: '' @ str_int n @ '' characters. '')"

definition build_prompt :: "string \<Rightarrow> int option \<Rightarrow> string" where
  "build_prompt style max_length =
     (if style = ''natural_simple'' then
        ''Describe this image in one clear, concise sentence suitable for AI training.\<newline>'' @
        ''Focus on: main subject, action/pose, setting/background.\<newline>'' @
        ''Be objective and descriptive. Avoid subjective interpretations.\<newline>'' @
        length_constraint max_length @ output_format ''Your caption here''
      else if style = ''natural_detailed'' then
        ''Provide a detailed 2-3 sentence description of this image suitable for AI training.\<newline>'' @
        ''Include: subjects, actions, environment, mood, lighting, notable details, composition.\<newline>'' @
        ''Be specific and objective. Suitable for high-quality model training.\<newline>'' @
        length_constraint max_length @ output_format ''Your detailed caption here''
      else if style = ''tags'' then
        ''Extract visual tags from this image suitable for AI training.\<newline>'' @
        ''Format: comma-separated tags, ordered by importance (most to least).\<newline>'' @
        ''Include: subjects, objects, actions, style, mood, colors, technical aspects.\<newline>'' @
        ''Be specific and comprehensive.\<newline>'' @
        length_constraint max_length @ output_format ''tag1, tag2, tag3, tag4, tag5, ...''
      else
        ''Analyze this image and provide a caption suitable for AI training.\<newline>'' @
        length_constraint max_length @ output_format ''Your caption here'')"

text \<open>
  The first statement of \<^verbatim>\<open>generate_caption\<close>:
  \<^verbatim>\<open>prompt = custom_prompt or self._build_prompt(style, max_length)\<close>. Python's \<^verbatim>\<open>or\<close>
  takes the right operand when the left one is falsy, that is \<^verbatim>\<open>None\<close> or the empty
  string.
\<close>

definition caption_prompt :: "string \<Rightarrow> int option \<Rightarrow> string option \<Rightarrow> string" where
  "caption_prompt style max_length custom_prompt =
     (case custom_prompt of
        None \<Rightarrow> build_prompt style max_length
      | Some p \<Rightarrow> if p = [] then build_prompt style max_length else p)"

section \<open>The vision backend client\<close>

text \<open>
  The fields that \<^verbatim>\<open>VisionService.__init__\<close> sets on \<^verbatim>\<open>self\<close>. \<^verbatim>\<open>max_retries\<close> is
  whatever integer the configuration holds.
\<close>

record vision_service =
  backend :: string
  base_url :: string
  model_name :: string
  timeout_seconds :: int
  max_retries :: int
  auto_pull :: bool

text \<open>
  What the outside world answers to one call of \<^verbatim>\<open>_ollama_inference\<close> or
  \<^verbatim>\<open>_lmstudio_inference\<close>: either some statement of the call raises (opening the image,
  the POST running into the timeout or a refused connection, reading or indexing the JSON
  body), or a response arrives with a status, the body text that \<^verbatim>\<open>response.text()\<close>
  gives, and the message content that the call extracts from the JSON body.
\<close>

record http_response =
  status :: nat
  body_text :: string
  message_content :: string

datatype io_outcome = Raised exn | Responded http_response

text \<open>
  The effects of the client: the calls of the two inference functions (with the image
  path and the prompt they were given) and the durations handed to \<^verbatim>\<open>asyncio.sleep\<close>,
  both in order.
\<close>

datatype inference_call = OllamaInference string string | LMStudioInference string string

record effects =
  inference_calls :: "inference_call list"
  sleeps :: "int list"

text \<open>
  The outside world as the client meets it at its two awaits: the \<open>k\<close>-th inference call
  gets the answer \<open>answer w k\<close>, and the \<open>k\<close>-th sleep either runs to its end or
  raises, as it does when the task is cancelled while it sleeps.
\<close>

record world =
  answer :: "nat \<Rightarrow> io_outcome"
  sleep_raises :: "nat \<Rightarrow> exn option"

text \<open>\<^verbatim>\<open>await asyncio.sleep(wait_time)\<close>.\<close>

definition sleep :: "world \<Rightarrow> int \<Rightarrow> effects \<Rightarrow> (exn + unit) \<times> effects" where
  "sleep w wait_time s =
     (case sleep_raises w (length (sleeps s)) of None \<Rightarrow> Inr () | Some e \<Rightarrow> Inl e,
      s\<lparr>sleeps := sleeps s @ [wait_time]\<rparr>)"

text \<open>
  Both inference functions treat the answer alike: an exception propagates, a status other
  than 200 raises \<^verbatim>\<open>VisionModelError(f"<api> API error ({response.status}): {error_text}")\<close>,
  and a status of 200 returns the message content.
\<close>

definition read_answer :: "string \<Rightarrow> io_outcome \<Rightarrow> exn + string" where
  "read_answer api out =
     (case out of
        Raised e \<Rightarrow> Inl e
      | Responded response \<Rightarrow>
          if status response \<noteq> 200 then
            Inl (VisionModelError (api @ '' API error ('' @ str_nat (status response) @ ''): ''
                   @ body_text response))
          else Inr (message_content response))"

definition ollama_inference ::
  "world \<Rightarrow> string \<Rightarrow> string \<Rightarrow> effects \<Rightarrow> (exn + string) \<times> effects" where
  "ollama_inference w image_path prompt s =
     (read_answer ''Ollama'' (answer w (length (inference_calls s))),
      s\<lparr>inference_calls := inference_calls s @ [OllamaInference image_path prompt]\<rparr>)"

definition lmstudio_inference ::
  "world \<Rightarrow> string \<Rightarrow> string \<Rightarrow> effects \<Rightarrow> (exn + string) \<times> effects" where
  "lmstudio_inference w image_path prompt s =
     (read_answer ''LM Studio'' (answer w (length (inference_calls s))),
      s\<lparr>inference_calls := inference_calls s @ [LMStudioInference image_path prompt]\<rparr>)"

text \<open>The body of the \<^verbatim>\<open>try\<close> in \<^verbatim>\<open>_call_vision_model_with_retry\<close>.\<close>

definition attempt_inference ::
  "vision_service \<Rightarrow> world \<Rightarrow> string \<Rightarrow> string \<Rightarrow> effects \<Rightarrow> (exn + string) \<times> effects" where
  "attempt_inference self w image_path prompt s =
     (if backend self = ''ollama'' then ollama_inference w image_path prompt s
      else if backend self = ''lmstudio'' then lmstudio_inference w image_path prompt s
      else (Inl (ValueError (''Unsupported backend: '' @ backend self)), s))"

text \<open>\<^verbatim>\<open>str(last_error)\<close>, where \<^verbatim>\<open>last_error\<close> starts as \<^verbatim>\<open>None\<close>.\<close>

definition str_last_error :: "exn option \<Rightarrow> string" where
  "str_last_error last_error = (case last_error of None \<Rightarrow> ''None'' | Some e \<Rightarrow> str_exn e)"

text \<open>
  The loop \<^verbatim>\<open>for attempt in range(self.max_retries + 1)\<close> from the iteration
  \<open>attempt\<close> on. A returned response leaves the loop. An exception that
  \<^verbatim>\<open>except Exception\<close> catches is kept as \<^verbatim>\<open>last_error\<close> and, unless this was the
  last iteration, followed by a sleep of \<^verbatim>\<open>(attempt + 1) * 2\<close> seconds; any other
  exception, and an exception raised by the sleep, leaves the function. After the loop the
  function raises.
\<close>

function retry_loop ::
  "vision_service \<Rightarrow> world \<Rightarrow> string \<Rightarrow> string \<Rightarrow> int \<Rightarrow> exn option \<Rightarrow> effects
     \<Rightarrow> (exn + string) \<times> effects" where
  "retry_loop self w image_path prompt attempt last_error s =
     (if attempt < max_retries self + 1 then
        (case attempt_inference self w image_path prompt s of
           (Inr response, s') \<Rightarrow> (Inr response, s')
         | (Inl e, s') \<Rightarrow>
             if \<not> is_Exception e then (Inl e, s')
             else if attempt < max_retries self then
               (case sleep w ((attempt + 1) * 2) s' of
                  (Inl e', s'') \<Rightarrow> (Inl e', s'')
                | (Inr u, s'') \<Rightarrow>
                    retry_loop self w image_path prompt (attempt + 1) (Some e) s'')
             else retry_loop self w image_path prompt (attempt + 1) (Some e) s')
      else
        (Inl (VisionModelError (''Vision inference failed after '' @ str_int (max_retries self + 1)
                @ '' attempts: '' @ str_last_error last_error)), s))"
  by pat_completeness auto
termination
  by (relation "measure (\<lambda>(self, w, image_path, prompt, attempt, last_error, s).
                  nat (max_retries self + 1 - attempt))") auto

declare retry_loop.simps [simp del]

definition call_vision_model_with_retry ::
  "vision_service \<Rightarrow> world \<Rightarrow> string \<Rightarrow> string \<Rightarrow> effects \<Rightarrow> (exn + string) \<times> effects" where
  "call_vision_model_with_retry self w image_path prompt s =
     retry_loop self w image_path prompt 0 None s"

section \<open>Parsing the model's response\<close>

text \<open>
  The values that \<^verbatim>\<open>json.loads\<close> builds. A \<^verbatim>\<open>dict\<close> is an association list read
  with \<^const>\<open>map_of\<close> (the first binding of a key is the dictionary's entry). A float is
  given by the rational number that its literal denotes; the service only stores and
  compares these numbers.
\<close>

datatype pyval =
    PNone
  | PBool bool
  | PInt int
  | PFloat rat
  | PStr string
  | PList "pyval list"
  | PDict "(string \<times> pyval) list"

fun type_name :: "pyval \<Rightarrow> string" where
  "type_name PNone = ''NoneType''"
| "type_name (PBool b) = ''bool''"
| "type_name (PInt i) = ''int''"
| "type_name (PFloat x) = ''float''"
| "type_name (PStr t) = ''str''"
| "type_name (PList vs) = ''list''"
| "type_name (PDict kvs) = ''dict''"

definition no_attribute :: "pyval \<Rightarrow> string \<Rightarrow> exn" where
  "no_attribute v attr =
     AttributeError (CHR 0x27 # type_name v @ CHR 0x27 # '' object has no attribute ''
                       @ CHR 0x27 # attr @ [CHR 0x27])"

text \<open>\<^verbatim>\<open>v.get(key, default)\<close>: only a \<^verbatim>\<open>dict\<close> has the method.\<close>

fun py_get :: "pyval \<Rightarrow> string \<Rightarrow> pyval \<Rightarrow> exn + pyval" where
  "py_get (PDict kvs) key dflt = Inr (case map_of kvs key of None \<Rightarrow> dflt | Some v \<Rightarrow> v)"
| "py_get v key dflt = Inl (no_attribute v ''get'')"

text \<open>
  \<^verbatim>\<open>str.isspace\<close> on the code points below 256 (a \<^typ>\<open>char\<close> stands for one of them),
  and \<^verbatim>\<open>str.strip()\<close>.
\<close>

definition py_isspace :: "char \<Rightarrow> bool" where
  "py_isspace c = (of_char c \<in> set [9, 10, 11, 12, 13, 28, 29, 30, 31, 32, 133, 160 :: nat])"

definition strip :: "string \<Rightarrow> string" where
  "strip t = rev (dropWhile py_isspace (rev (dropWhile py_isspace t)))"

fun py_strip :: "pyval \<Rightarrow> exn + string" where
  "py_strip (PStr t) = Inr (strip t)"
| "py_strip v = Inl (no_attribute v ''strip'')"

record caption_generation_result =
  caption :: string
  quality_score :: pyval
  quality_details :: "(string \<times> pyval) list"
  quality_schema_version :: int
  flags :: pyval
  processing_time_ms :: int
  model :: string
  result_backend :: string
  raw_response :: "pyval option"

text \<open>The \<^verbatim>\<open>try\<close> body of \<^verbatim>\<open>_parse_response\<close> after \<^verbatim>\<open>json.loads\<close> has returned \<open>data\<close>.\<close>

definition parse_data :: "vision_service \<Rightarrow> pyval \<Rightarrow> exn + caption_generation_result" where
  "parse_data self data =
     and_then (py_get data ''caption'' (PStr [])) (\<lambda>c.
     and_then (py_strip c) (\<lambda>caption'.
     and_then (py_get data ''quality'' (PDict [])) (\<lambda>quality.
     and_then (py_get quality ''overall'' (PFloat (8 / 10))) (\<lambda>quality_score'.
     and_then (py_get quality ''sharpness'' (PFloat (8 / 10))) (\<lambda>sharpness.
     and_then (py_get quality ''clarity'' (PFloat (8 / 10))) (\<lambda>clarity.
     and_then (py_get quality ''composition'' (PFloat (8 / 10))) (\<lambda>composition.
     and_then (py_get quality ''exposure'' (PFloat (8 / 10))) (\<lambda>exposure.
     and_then (py_get data ''flags'' (PList [])) (\<lambda>flags'.
       Inr \<lparr>caption = caption',
            quality_score = quality_score',
            quality_details =
              [(''sharpness'', sharpness), (''clarity'', clarity), (''composition'', composition),
               (''exposure'', exposure), (''overall'', quality_score')],
            quality_schema_version = 1,
            flags = flags',
            processing_time_ms = 0,
            model = model_name self,
            result_backend = backend self,
            raw_response = Some data\<rparr>)))))))))"

text \<open>
  What \<^verbatim>\<open>json.loads\<close> does on a text: it returns the decoded value, it raises
  \<^verbatim>\<open>json.JSONDecodeError\<close>, or it raises another exception (\<^verbatim>\<open>RecursionError\<close> on a
  deeply nested text, \<^verbatim>\<open>ValueError\<close> on an integer with too many digits).
\<close>

datatype loads_outcome = Decoded pyval | JSONDecodeError | LoadsRaised exn

text \<open>
  \<^verbatim>\<open>_parse_response\<close>. The decoder \<^verbatim>\<open>json.loads\<close> belongs to Python's standard library
  and is a parameter. \<^verbatim>\<open>json.JSONDecodeError\<close> is the only exception that the function
  catches; any other exception of the decoder leaves the function.
\<close>

definition parse_response ::
  "(string \<Rightarrow> loads_outcome) \<Rightarrow> vision_service \<Rightarrow> string \<Rightarrow> string
     \<Rightarrow> exn + caption_generation_result" where
  "parse_response json_loads self raw style =
     (case json_loads raw of
        Decoded data \<Rightarrow> parse_data self data
      | LoadsRaised e \<Rightarrow> Inl e
      | JSONDecodeError \<Rightarrow>
          Inr \<lparr>caption = strip raw,
               quality_score = PFloat (5 / 10),
               quality_details = [(''overall'', PFloat (5 / 10))],
               quality_schema_version = 1,
               flags = PList [PStr ''unparsed_response''],
               processing_time_ms = 0,
               model = model_name self,
               result_backend = backend self,
               raw_response = None\<rparr>)"

text \<open>
  \<^verbatim>\<open>generate_caption\<close>; \<open>elapsed_ms\<close> is the value of
  \<^verbatim>\<open>int((time.time() - start_time) * 1000)\<close> read from the clock.
\<close>

definition generate_caption ::
  "(string \<Rightarrow> loads_outcome) \<Rightarrow> vision_service \<Rightarrow> world \<Rightarrow> int \<Rightarrow> string \<Rightarrow> string \<Rightarrow> int option
     \<Rightarrow> string option \<Rightarrow> effects \<Rightarrow> (exn + caption_generation_result) \<times> effects" where
  "generate_caption json_loads self w elapsed_ms image_path style max_length custom_prompt s =
     (let prompt = caption_prompt style max_length custom_prompt in
      case call_vision_model_with_retry self w image_path prompt s of
        (Inl e, s') \<Rightarrow> (Inl e, s')
      | (Inr raw, s') \<Rightarrow>
          (case parse_response json_loads self raw style of
             Inl e \<Rightarrow> (Inl e, s')
           | Inr result \<Rightarrow> (Inr (result\<lparr>processing_time_ms := elapsed_ms\<rparr>), s')))"

section \<open>The frontend API client\<close>

text \<open>
  \<^verbatim>\<open>API.request\<close> of the frontend is JavaScript. The values are those that
  \<^verbatim>\<open>response.json()\<close> can produce, and \<^verbatim>\<open>undefined\<close> for a property that is not there.
  A number is given by the text that the engine prints for it (so \<^verbatim>\<open>0\<close> is \<open>JNum ''0''\<close>);
  an object is the list of its own properties in enumeration order, with distinct keys.
  A \<^typ>\<open>char\<close> stands for a UTF-16 code unit below 256.
\<close>

datatype js =
    JUndefined
  | JNull
  | JBool bool
  | JNum string
  | JStr string
  | JArr "js list"
  | JObj "(string \<times> js) list"

text \<open>
  What an \<^verbatim>\<open>await\<close> can throw here: the \<^verbatim>\<open>Error\<close> that the function creates itself
  with its message, and the engine's own \<^verbatim>\<open>TypeError\<close> and \<^verbatim>\<open>SyntaxError\<close>, whose
  messages the language leaves to the engine.
\<close>

datatype js_error = Error string | TypeError | SyntaxError

text \<open>
  Reading one of the properties \<^verbatim>\<open>detail\<close>, \<^verbatim>\<open>loc\<close>, \<^verbatim>\<open>msg\<close>: no prototype
  has them, so only an object's own property gives a value; \<^verbatim>\<open>null\<close> and
  \<^verbatim>\<open>undefined\<close> have no properties at all.
\<close>

fun get_prop :: "js \<Rightarrow> string \<Rightarrow> js_error + js" where
  "get_prop JUndefined name = Inl TypeError"
| "get_prop JNull name = Inl TypeError"
| "get_prop (JObj props) name = Inr (case map_of props name of None \<Rightarrow> JUndefined | Some v \<Rightarrow> v)"
| "get_prop v name = Inr JUndefined"

text \<open>
  The conversion to a string that a template literal, \<^verbatim>\<open>Array.prototype.join\<close> and the
  \<^verbatim>\<open>Error\<close> constructor apply. An array is joined with commas; an object prints as
  \<^verbatim>\<open>[object Object]\<close>, unless an own property \<^verbatim>\<open>toString\<close> (never a function in
  parsed JSON) hides the inherited method, which makes the conversion throw. In a join,
  \<^verbatim>\<open>null\<close> and \<^verbatim>\<open>undefined\<close> give the empty string.
\<close>

fun to_string :: "js \<Rightarrow> js_error + string"
  and join :: "string \<Rightarrow> js list \<Rightarrow> js_error + string" where
  "to_string JUndefined = Inr ''undefined''"
| "to_string JNull = Inr ''null''"
| "to_string (JBool b) = Inr (if b then ''true'' else ''false'')"
| "to_string (JNum t) = Inr t"
| "to_string (JStr t) = Inr t"
| "to_string (JArr vs) = join '','' vs"
| "to_string (JObj props) =
     (if map_of props ''toString'' = None then Inr ''[object Object]'' else Inl TypeError)"
| "join sep [] = Inr []"
| "join sep (v # vs) =
     and_then (if v = JUndefined \<or> v = JNull then Inr [] else to_string v) (\<lambda>first.
     if vs = [] then Inr first
     else and_then (join sep vs) (\<lambda>rest. Inr (first @ sep @ rest)))"

text \<open>Joining strings that are already converted, with a separator between them.\<close>

fun join_strings :: "string \<Rightarrow> string list \<Rightarrow> string" where
  "join_strings sep [] = []"
| "join_strings sep [t] = t"
| "join_strings sep (t # u # ts) = t @ sep @ join_strings sep (u # ts)"

text \<open>
  \<^verbatim>\<open>JSON.stringify\<close>: the quoting of a string, then the serialisation of a value. A
  number that is not finite is serialised as \<^verbatim>\<open>null\<close>, as is \<^verbatim>\<open>undefined\<close> in an array;
  a property whose value is \<^verbatim>\<open>undefined\<close> is left out.
\<close>

definition hex_digit :: "nat \<Rightarrow> char" where
  "hex_digit d = ''0123456789abcdef'' ! d"

definition quote_char :: "char \<Rightarrow> string" where
  "quote_char c =
     (let n = (of_char c :: nat) in
      if n = 8 then [CHR 0x5C, CHR ''b'']
      else if n = 9 then [CHR 0x5C, CHR ''t'']
      else if n = 10 then [CHR 0x5C, CHR ''n'']
      else if n = 12 then [CHR 0x5C, CHR ''f'']
      else if n = 13 then [CHR 0x5C, CHR ''r'']
      else if n = 34 then [CHR 0x5C, CHR 0x22]
      else if n = 92 then [CHR 0x5C, CHR 0x5C]
      else if n < 32 then [CHR 0x5C, CHR ''u'', CHR ''0'', CHR ''0'', hex_digit (n div 16), hex_digit (n mod 16)]
      else [c])"

definition quote :: "string \<Rightarrow> string" where
  "quote t = CHR 0x22 # concat (map quote_char t) @ [CHR 0x22]"

fun json_stringify :: "js \<Rightarrow> string option"
  and stringify_elements :: "js list \<Rightarrow> string list"
  and stringify_props :: "(string \<times> js) list \<Rightarrow> string list" where
  "json_stringify JUndefined = None"
| "json_stringify JNull = Some ''null''"
| "json_stringify (JBool b) = Some (if b then ''true'' else ''false'')"
| "json_stringify (JNum t) =
     Some (if t = ''Infinity'' \<or> t = ''-Infinity'' \<or> t = ''NaN'' then ''null'' else t)"
| "json_stringify (JStr t) = Some (quote t)"
| "json_stringify (JArr vs) =
     Some (''['' @ join_strings '','' (stringify_elements vs) @ '']'')"
| "json_stringify (JObj props) =
     Some (''{'' @ join_strings '','' (stringify_props props) @ ''}'')"
| "stringify_elements [] = []"
| "stringify_elements (v # vs) =
     (case json_stringify v of None \<Rightarrow> ''null'' | Some t \<Rightarrow> t) # stringify_elements vs"
| "stringify_props [] = []"
| "stringify_props ((k, v) # props) =
     (case json_stringify v of
        None \<Rightarrow> stringify_props props
      | Some t \<Rightarrow> (quote k @ '':'' @ t) # stringify_props props)"

text \<open>
  The response that \<^verbatim>\<open>fetch\<close> resolves with: \<^verbatim>\<open>response.status\<close>,
  \<^verbatim>\<open>response.statusText\<close>, and what \<^verbatim>\<open>response.json()\<close> settles with (the parsed
  body, or the error it rejects with when the body is not JSON). \<^verbatim>\<open>response.ok\<close> is
  true for the statuses 200 to 299.
\<close>

record response =
  resp_status :: nat
  statusText :: string
  resp_json :: "js_error + js"

definition ok :: "response \<Rightarrow> bool" where
  "ok r = (200 \<le> resp_status r \<and> resp_status r \<le> 299)"

datatype fetch_outcome = Rejects js_error | Resolves response

text \<open>
  One element of a validation error list:
  \<^verbatim>\<open>`${e.loc?.join('.')}: ${e.msg}`\<close>.
\<close>

definition validation_text :: "js \<Rightarrow> js_error + string" where
  "validation_text e =
     and_then (get_prop e ''loc'') (\<lambda>loc.
     and_then (case loc of
                 JUndefined \<Rightarrow> Inr ''undefined''
               | JNull \<Rightarrow> Inr ''undefined''
               | JArr vs \<Rightarrow> join ''.'' vs
               | _ \<Rightarrow> Inl TypeError) (\<lambda>loc_text.
     and_then (get_prop e ''msg'') (\<lambda>msg.
     and_then (to_string msg) (\<lambda>msg_text.
       Inr (loc_text @ '': '' @ msg_text)))))"

fun validation_texts :: "js list \<Rightarrow> js_error + string list" where
  "validation_texts [] = Inr []"
| "validation_texts (e # es) =
     and_then (validation_text e) (\<lambda>t.
     and_then (validation_texts es) (\<lambda>ts. Inr (t # ts)))"

text \<open>The value of \<^verbatim>\<open>errorMessage\<close> when the \<^verbatim>\<open>throw\<close> is reached.\<close>

definition error_message :: "js \<Rightarrow> js_error + js" where
  "error_message error =
     and_then (get_prop error ''detail'') (\<lambda>detail.
       case detail of
         JArr es \<Rightarrow> and_then (validation_texts es) (\<lambda>ts. Inr (JStr (join_strings '', '' ts)))
       | JNull \<Rightarrow> Inr (JStr ''null'')
       | JObj props \<Rightarrow> Inr (case json_stringify detail of None \<Rightarrow> JUndefined | Some t \<Rightarrow> JStr t)
       | _ \<Rightarrow> Inr detail)"

text \<open>Truthiness, as \<^verbatim>\<open>||\<close> tests it.\<close>

fun truthy :: "js \<Rightarrow> bool" where
  "truthy JUndefined = False"
| "truthy JNull = False"
| "truthy (JBool b) = b"
| "truthy (JNum t) = (t \<noteq> ''0'')"
| "truthy (JStr t) = (t \<noteq> [])"
| "truthy (JArr vs) = True"
| "truthy (JObj props) = True"

text \<open>
  \<^verbatim>\<open>API.request\<close> from the settling of \<^verbatim>\<open>await fetch(url, config)\<close> on; the URL and
  the configuration only feed \<^verbatim>\<open>fetch\<close>. The \<^verbatim>\<open>catch\<close> block logs and throws the
  error again, and \<^verbatim>\<open>Utils.log\<close> only writes to the console and to the desktop logger
  (ignoring what that one throws), so a thrown error is the left summand as it is.
\<close>

definition request :: "fetch_outcome \<Rightarrow> js_error + js" where
  "request outcome =
     (case outcome of
        Rejects err \<Rightarrow> Inl err
      | Resolves response \<Rightarrow>
          if \<not> ok response then
            (let error = (case resp_json response of
                            Inl err \<Rightarrow> JObj [(''detail'', JStr (statusText response))]
                          | Inr v \<Rightarrow> v)
             in case and_then (error_message error) (\<lambda>errorMessage.
                       to_string (if truthy errorMessage then errorMessage
                                  else JStr (''HTTP '' @ str_nat (resp_status response)))) of
                  Inl err \<Rightarrow> Inl err
                | Inr message \<Rightarrow> Inl (Error message))
          else if resp_status response = 204 then Inr JNull
          else resp_json response)"

section \<open>The caption job subsystem\<close>

text \<open>
  The job subsystem (job record store, runner, job manager) is backend code that the
  repository's sources here only declare (the \<^verbatim>\<open>caption_jobs\<close> table) and call (the
  \<^verbatim>\<open>/vision/jobs\<close> endpoints of the API client). Its definitions below follow the
  specification, section by section. File ids and job ids are natural numbers, as are
  the readings of the clock.
\<close>

text \<open>Modelled from the spec: the states of the runner's state machine (4.4); the code of
  the runner is missing.\<close>

datatype job_status = Pending | Running | Paused | Completed | Cancelled | Failed

text \<open>Modelled from the spec: the terminal states completed, cancelled and failed (4.4); the
  code of the runner is missing.\<close>

definition terminal :: "job_status \<Rightarrow> bool" where
  "terminal st = (st = Completed \<or> st = Cancelled \<or> st = Failed)"

text \<open>Modelled from the spec: the per-item result \<^verbatim>\<open>CaptionOutcome\<close> (3), a generated
  caption, a classified failure with its message, or a skipped marker; its class is missing.\<close>

datatype caption_outcome = Generated string | ItemFailed string | Skipped

text \<open>Modelled from the spec: the mutable state, work list and recovery payload of a
  \<^verbatim>\<open>CaptionJob\<close> (3); its class is missing. The immutable configuration plays no role in
  the state machine and is left out.\<close>

record caption_job =
  current_status :: job_status
  total_count :: nat
  completed_count :: nat
  failed_count :: nat
  skipped_count :: nat
  last_error :: "string option"
  created_at :: nat
  started_at :: "nat option"
  paused_at :: "nat option"
  completed_at :: "nat option"
  work_list :: "nat list"
  recovery_payload :: "(nat \<times> caption_outcome) list"

text \<open>Modelled from the spec: the sum completed + failed + skipped of the invariant on the
  counters (3); the class of the job is missing.\<close>

definition processed_count :: "caption_job \<Rightarrow> nat" where
  "processed_count j = completed_count j + failed_count j + skipped_count j"

text \<open>Modelled from the spec: the job record that the job manager creates on a start
  request (3, 4.5), pending, with the total fixed to the length of the work list and
  nothing processed; the constructor is missing.\<close>

definition new_job :: "nat list \<Rightarrow> nat \<Rightarrow> caption_job" where
  "new_job items now =
     \<lparr>current_status = Pending, total_count = length items, completed_count = 0,
      failed_count = 0, skipped_count = 0, last_error = None, created_at = now,
      started_at = None, paused_at = None, completed_at = None,
      work_list = items, recovery_payload = []\<rparr>"

text \<open>Modelled from the spec: what \<^verbatim>\<open>applyProgress\<close> (4.3) does to one record, it
  increments the matching counter and appends the outcome to the recovery payload; the
  store's code is missing.\<close>

definition record_outcome :: "caption_job \<Rightarrow> nat \<Rightarrow> caption_outcome \<Rightarrow> caption_job" where
  "record_outcome j item outcome =
     (case outcome of
        Generated c \<Rightarrow> j\<lparr>completed_count := completed_count j + 1\<rparr>
      | ItemFailed msg \<Rightarrow> j\<lparr>failed_count := failed_count j + 1\<rparr>
      | Skipped \<Rightarrow> j\<lparr>skipped_count := skipped_count j + 1\<rparr>)
     \<lparr>recovery_payload := recovery_payload j @ [(item, outcome)]\<rparr>"

text \<open>Modelled from the spec: what \<^verbatim>\<open>setStatus\<close> (4.3) does to one record, it
  transitions the status and records the associated timestamp field; the store's code is
  missing.\<close>

definition with_status :: "caption_job \<Rightarrow> job_status \<Rightarrow> nat \<Rightarrow> caption_job" where
  "with_status j new now =
     (case new of
        Pending \<Rightarrow> j\<lparr>current_status := Pending, created_at := now\<rparr>
      | Running \<Rightarrow> j\<lparr>current_status := Running, started_at := Some now\<rparr>
      | Paused \<Rightarrow> j\<lparr>current_status := Paused, paused_at := Some now\<rparr>
      | _ \<Rightarrow> j\<lparr>current_status := new, completed_at := Some now\<rparr>)"

text \<open>Modelled from the spec: the error taxonomy (7) as far as the commands below report
  it; the error classes are missing.\<close>

datatype job_error = InvalidTransition | DuplicateJob

text \<open>Modelled from the spec: the job record store (4.3), a persistent map from job ids to
  records; its code is missing.\<close>

type_synonym job_store = "nat \<rightharpoonup> caption_job"

text \<open>Modelled from the spec: \<^verbatim>\<open>create\<close> (4.3) fails with \<^verbatim>\<open>DuplicateJob\<close> if the id
  already exists; the store's code is missing.\<close>

definition create :: "job_store \<Rightarrow> nat \<Rightarrow> caption_job \<Rightarrow> job_error + job_store" where
  "create st job_id j = (if st job_id \<noteq> None then Inl DuplicateJob else Inr (st(job_id \<mapsto> j)))"

text \<open>Modelled from the spec: \<^verbatim>\<open>applyProgress\<close> (4.3) on the record of the given job;
  the store's code is missing.\<close>

definition applyProgress :: "job_store \<Rightarrow> nat \<Rightarrow> nat \<Rightarrow> caption_outcome \<Rightarrow> job_store" where
  "applyProgress st job_id item outcome =
     (case st job_id of None \<Rightarrow> st | Some j \<Rightarrow> st(job_id \<mapsto> record_outcome j item outcome))"

text \<open>Modelled from the spec: \<^verbatim>\<open>setStatus\<close> (4.3) on the record of the given job; the
  store's code is missing.\<close>

definition setStatus :: "job_store \<Rightarrow> nat \<Rightarrow> job_status \<Rightarrow> nat \<Rightarrow> job_store" where
  "setStatus st job_id new now =
     (case st job_id of None \<Rightarrow> st | Some j \<Rightarrow> st(job_id \<mapsto> with_status j new now))"

text \<open>Modelled from the spec: the jobs that \<^verbatim>\<open>loadActiveJobs\<close> (4.3) returns are those
  whose last known status is pending, running or paused; the store's code is missing.\<close>

definition active :: "caption_job \<Rightarrow> bool" where
  "active j = (current_status j = Pending \<or> current_status j = Running \<or> current_status j = Paused)"

text \<open>Modelled from the spec: the job manager (4.5, 9), the persistent store together
  with the process-wide registry of runners; a runner is known by the items that its
  workers have in flight (4.4). The manager's code is missing.\<close>

record manager =
  store :: job_store
  runners :: "nat \<rightharpoonup> nat list"

text \<open>Modelled from the spec: the manager of a process that starts on an empty store, with
  no runner registered (9); the manager's code is missing.\<close>

definition startup :: manager where
  "startup = \<lparr>store = Map.empty, runners = Map.empty\<rparr>"

text \<open>Modelled from the spec: the status that the manager goes by (4.5), a job that the
  store has as running while no runner exists in memory is treated as paused; the manager's
  code is missing.\<close>

definition status_of :: "manager \<Rightarrow> nat \<Rightarrow> job_status option" where
  "status_of m job_id =
     (case store m job_id of
        None \<Rightarrow> None
      | Some j \<Rightarrow>
          if current_status j = Running \<and> runners m job_id = None then Some Paused
          else Some (current_status j))"

text \<open>Modelled from the spec: \<^verbatim>\<open>startJob\<close> (4.5, 2), the manager creates the record and
  instantiates a runner; a second job under the same id is a \<^verbatim>\<open>DuplicateJob\<close> and nothing
  is created (7). The manager's code is missing.\<close>

definition startJob :: "manager \<Rightarrow> nat \<Rightarrow> nat list \<Rightarrow> nat \<Rightarrow> job_error option \<times> manager" where
  "startJob m job_id items now =
     (case create (store m) job_id (new_job items now) of
        Inl e \<Rightarrow> (Some e, m)
      | Inr st \<Rightarrow> (None, m\<lparr>store := st, runners := (runners m)(job_id \<mapsto> [])\<rparr>))"

text \<open>Modelled from the spec: the runner starts its job, pending to running (4.4); the
  runner's code is missing.\<close>

definition begin_run :: "manager \<Rightarrow> nat \<Rightarrow> nat \<Rightarrow> manager" where
  "begin_run m job_id now =
     (if status_of m job_id = Some Pending \<and> runners m job_id \<noteq> None
      then m\<lparr>store := setStatus (store m) job_id Running now\<rparr> else m)"

text \<open>Modelled from the spec: \<^verbatim>\<open>pause\<close> (4.4, 4.5, 6), a running job becomes paused and
  its in-flight calls are left to complete; on a job that is not running the command is a
  no-op reported as \<^verbatim>\<open>InvalidTransition\<close>. The manager's code is missing.\<close>

definition pause :: "manager \<Rightarrow> nat \<Rightarrow> nat \<Rightarrow> job_error option \<times> manager" where
  "pause m job_id now =
     (if status_of m job_id = Some Running
      then (None, m\<lparr>store := setStatus (store m) job_id Paused now\<rparr>)
      else (Some InvalidTransition, m))"

text \<open>Modelled from the spec: \<^verbatim>\<open>resume\<close> (4.4, 4.5, 6), a paused job becomes running
  again, with a runner created if none exists; on a job that is not paused the command is
  a no-op reported as \<^verbatim>\<open>InvalidTransition\<close>. The manager's code is missing.\<close>

definition resume :: "manager \<Rightarrow> nat \<Rightarrow> nat \<Rightarrow> job_error option \<times> manager" where
  "resume m job_id now =
     (if status_of m job_id = Some Paused
      then (None, m\<lparr>store := setStatus (store m) job_id Running now,
                    runners := (runners m)(job_id \<mapsto>
                       (case runners m job_id of None \<Rightarrow> [] | Some items \<Rightarrow> items))\<rparr>)
      else (Some InvalidTransition, m))"

text \<open>Modelled from the spec: \<^verbatim>\<open>cancel\<close> (4.4), reachable from pending, running or
  paused, with the drain behaviour of pause; on a job in a terminal state the command
  changes nothing. The manager's code is missing.\<close>

definition cancel :: "manager \<Rightarrow> nat \<Rightarrow> nat \<Rightarrow> job_error option \<times> manager" where
  "cancel m job_id now =
     (case status_of m job_id of
        None \<Rightarrow> (Some InvalidTransition, m)
      | Some st \<Rightarrow>
          if terminal st then (Some InvalidTransition, m)
          else (None, m\<lparr>store := setStatus (store m) job_id Cancelled now\<rparr>))"

text \<open>Modelled from the spec: the first item of the work list that is neither in the
  recovery payload nor in flight (4.4), the next one to dispatch; the runner's code is
  missing.\<close>

definition next_item :: "caption_job \<Rightarrow> nat list \<Rightarrow> nat option" where
  "next_item j in_flight =
     (case filter (\<lambda>item. item \<notin> fst ` set (recovery_payload j) \<and> item \<notin> set in_flight)
             (work_list j) of
        [] \<Rightarrow> None
      | item # rest \<Rightarrow> Some item)"

text \<open>Modelled from the spec: the runner hands the next item to a worker while the job is
  running and fewer than \<open>limit\<close> workers are busy (4.4); the runner's code is missing.\<close>

definition dispatch :: "nat \<Rightarrow> manager \<Rightarrow> nat \<Rightarrow> manager" where
  "dispatch limit m job_id =
     (case (store m job_id, runners m job_id) of
        (Some j, Some in_flight) \<Rightarrow>
          if current_status j = Running \<and> length in_flight < limit then
            (case next_item j in_flight of
               None \<Rightarrow> m
             | Some item \<Rightarrow> m\<lparr>runners := (runners m)(job_id \<mapsto> in_flight @ [item])\<rparr>)
          else m
      | _ \<Rightarrow> m)"

text \<open>Modelled from the spec: a worker reports the outcome of an item that it had in
  flight and the runner applies it with \<^verbatim>\<open>applyProgress\<close> (4.4), also while the job is
  paused or cancelled, since in-flight calls complete; the runner's code is missing.\<close>

definition report :: "manager \<Rightarrow> nat \<Rightarrow> nat \<Rightarrow> caption_outcome \<Rightarrow> manager" where
  "report m job_id item outcome =
     (case runners m job_id of
        None \<Rightarrow> m
      | Some in_flight \<Rightarrow>
          if item \<in> set in_flight then
            m\<lparr>store := applyProgress (store m) job_id item outcome,
              runners := (runners m)(job_id \<mapsto> removeAll item in_flight)\<rparr>
          else m)"

text \<open>Modelled from the spec: the runner completes a running job when
  completed + failed + skipped equals the total (4.4), and the registry drops the runner on
  a terminal state (9); the runner's code is missing.\<close>

definition complete :: "manager \<Rightarrow> nat \<Rightarrow> nat \<Rightarrow> manager" where
  "complete m job_id now =
     (case store m job_id of
        None \<Rightarrow> m
      | Some j \<Rightarrow>
          if current_status j = Running \<and> runners m job_id \<noteq> None
             \<and> processed_count j = total_count j
          then m\<lparr>store := setStatus (store m) job_id Completed now,
                 runners := (runners m)(job_id := None)\<rparr>
          else m)"

text \<open>Modelled from the spec: a persistence failure is fatal to the current run, the job
  goes from running to failed with the error recorded (4.3, 7); the runner's code is
  missing.\<close>

definition fail_run :: "manager \<Rightarrow> nat \<Rightarrow> string \<Rightarrow> nat \<Rightarrow> manager" where
  "fail_run m job_id msg now =
     (case store m job_id of
        None \<Rightarrow> m
      | Some j \<Rightarrow>
          if current_status j = Running \<and> runners m job_id \<noteq> None
          then m\<lparr>store := (store m)(job_id \<mapsto> (with_status j Failed now)\<lparr>last_error := Some msg\<rparr>),
                 runners := (runners m)(job_id := None)\<rparr>
          else m)"

text \<open>Modelled from the spec: crash recovery of one record (4.4), among the active jobs
  that the store loads, one whose last status was running is transitioned to paused; the
  manager's code is missing.\<close>

definition recover_job :: "caption_job \<Rightarrow> nat \<Rightarrow> caption_job" where
  "recover_job j now =
     (if active j \<and> current_status j = Running then with_status j Paused now else j)"

text \<open>Modelled from the spec: crash recovery on process startup (4.4), every record of the
  store is recovered and no runner is created; the manager's code is missing.\<close>

definition recover :: "job_store \<Rightarrow> nat \<Rightarrow> manager" where
  "recover st now =
     \<lparr>store = (\<lambda>job_id. map_option (\<lambda>j. recover_job j now) (st job_id)), runners = Map.empty\<rparr>"

text \<open>Modelled from the spec: a restart of the process keeps the store, loses the
  registry of runners and runs the recovery (4.4, 9); the manager's code is missing.\<close>

definition restart :: "manager \<Rightarrow> nat \<Rightarrow> manager" where
  "restart m now = recover (store m) now"

text \<open>Modelled from the spec: what can happen to the manager, the commands of its callers
  (4.5), the steps of the runners (4.4) and restarts; \<open>limit\<close> is the size of the worker
  pools. The code that drives them is missing.\<close>

datatype event =
    StartJob nat "nat list" nat
  | BeginRun nat nat
  | Pause nat nat
  | Resume nat nat
  | Cancel nat nat
  | Dispatch nat
  | Report nat nat caption_outcome
  | Complete nat nat
  | FailRun nat string nat
  | Restart nat

text \<open>Modelled from the spec: the effect of one event on the manager, through the
  operations above (4.4, 4.5); the code that drives them is missing.\<close>

fun apply_event :: "nat \<Rightarrow> manager \<Rightarrow> event \<Rightarrow> manager" where
  "apply_event limit m (StartJob job_id items now) = snd (startJob m job_id items now)"
| "apply_event limit m (BeginRun job_id now) = begin_run m job_id now"
| "apply_event limit m (Pause job_id now) = snd (pause m job_id now)"
| "apply_event limit m (Resume job_id now) = snd (resume m job_id now)"
| "apply_event limit m (Cancel job_id now) = snd (cancel m job_id now)"
| "apply_event limit m (Dispatch job_id) = dispatch limit m job_id"
| "apply_event limit m (Report job_id item outcome) = report m job_id item outcome"
| "apply_event limit m (Complete job_id now) = complete m job_id now"
| "apply_event limit m (FailRun job_id msg now) = fail_run m job_id msg now"
| "apply_event limit m (Restart now) = restart m now"

text \<open>Modelled from the spec: the state that the manager reaches from a start on an empty
  store through a sequence of events; the code that drives them is missing.\<close>

definition run :: "nat \<Rightarrow> event list \<Rightarrow> manager" where
  "run limit events = foldl (apply_event limit) startup events"

text \<open>
  The facts about a record and the items in flight that every step preserves: the counters
  count the recovery payload, the total is the length of the work list, and the items of
  the payload and those in flight are distinct items of the work list.
\<close>

definition consistent :: "caption_job \<Rightarrow> nat list \<Rightarrow> bool" where
  "consistent j in_flight =
     (processed_count j = length (recovery_payload j)
      \<and> total_count j = length (work_list j)
      \<and> distinct (map fst (recovery_payload j) @ in_flight)
      \<and> set (map fst (recovery_payload j) @ in_flight) \<subseteq> set (work_list j))"

text \<open>
  A record together with its entry in the registry: a running job has a runner, a
  completed job has processed every item, and a completed or failed job has no runner.
\<close>

definition job_ok :: "caption_job \<Rightarrow> nat list option \<Rightarrow> bool" where
  "job_ok j runner =
     (consistent j (case runner of None \<Rightarrow> [] | Some in_flight \<Rightarrow> in_flight)
      \<and> (current_status j = Running \<longrightarrow> runner \<noteq> None)
      \<and> (current_status j = Completed \<longrightarrow> processed_count j = total_count j)
      \<and> (current_status j = Completed \<or> current_status j = Failed \<longrightarrow> runner = None))"

definition invariant :: "manager \<Rightarrow> bool" where
  "invariant m = (\<forall>job_id j. store m job_id = Some j \<longrightarrow> job_ok j (runners m job_id))"

text \<open>
  A job that is parked: paused or cancelled, without a runner, with the counters, the work
  list and the recovery payload of the record \<open>j0\<close>.
\<close>

definition parked :: "manager \<Rightarrow> nat \<Rightarrow> caption_job \<Rightarrow> bool" where
  "parked m job_id j0 =
     (case store m job_id of
        None \<Rightarrow> False
      | Some j \<Rightarrow>
          (current_status j = Paused \<or> current_status j = Cancelled)
          \<and> runners m job_id = None
          \<and> completed_count j = completed_count j0
          \<and> failed_count j = failed_count j0
          \<and> skipped_count j = skipped_count j0
          \<and> total_count j = total_count j0
          \<and> work_list j = work_list j0
          \<and> recovery_payload j = recovery_payload j0)"

section \<open>Notions used to state the properties of the client\<close>

text \<open>
  An attempt fails, for the retry loop, when the inference call raises an exception that
  \<^verbatim>\<open>except Exception\<close> catches or the response has a status other than 200; the kind
  of failure (timeout, refused connection, 5xx, 4xx, unreadable image) plays no role.
\<close>

definition fails :: "io_outcome \<Rightarrow> bool" where
  "fails out =
     (case out of Raised e \<Rightarrow> is_Exception e | Responded response \<Rightarrow> status response \<noteq> 200)"

definition supported :: "vision_service \<Rightarrow> bool" where
  "supported self = (backend self = ''ollama'' \<or> backend self = ''lmstudio'')"

definition api_name :: "vision_service \<Rightarrow> string" where
  "api_name self = (if backend self = ''ollama'' then ''Ollama'' else ''LM Studio'')"

definition inference_call_of :: "vision_service \<Rightarrow> string \<Rightarrow> string \<Rightarrow> inference_call" where
  "inference_call_of self image_path prompt =
     (if backend self = ''ollama'' then OllamaInference image_path prompt
      else LMStudioInference image_path prompt)"

text \<open>
  How a run of the retry loop that made \<open>k\<close> inference calls can have ended with \<open>r\<close>,
  when \<open>m\<close> iterations were left, \<open>n\<close> calls and \<open>z\<close> sleeps had been made before and
  \<open>prev\<close> was the last error: every call but the last failed, and the last call
  succeeded, or it failed too and was the last iteration, or it raised what
  \<^verbatim>\<open>except Exception\<close> does not catch, or it failed and the sleep after it raised.
\<close>

definition loop_result ::
  "vision_service \<Rightarrow> world \<Rightarrow> nat \<Rightarrow> nat \<Rightarrow> nat \<Rightarrow> exn option \<Rightarrow> nat \<Rightarrow> exn + string \<Rightarrow> bool" where
  "loop_result self w n z m prev k r =
     ((\<forall>j < k - 1. fails (answer w (n + j)))
      \<and> (case r of
           Inr reply \<Rightarrow>
             0 < k \<and> read_answer (api_name self) (answer w (n + (k - 1))) = Inr reply
         | Inl e \<Rightarrow>
             (k = m \<and> (\<forall>j < k. fails (answer w (n + j)))
                \<and> e = VisionModelError (''Vision inference failed after ''
                      @ str_int (max_retries self + 1) @ '' attempts: ''
                      @ str_last_error
                          (if k = 0 then prev
                           else Some (projl (read_answer (api_name self)
                                        (answer w (n + (k - 1))))))))
             \<or> (0 < k \<and> \<not> is_Exception e \<and> answer w (n + (k - 1)) = Raised e)
             \<or> (0 < k \<and> k < m \<and> fails (answer w (n + (k - 1)))
                  \<and> sleep_raises w (z + (k - 1)) = Some e)))"

text \<open>The quality object that \<^verbatim>\<open>data.get("quality", {})\<close> yields, when it is a \<^verbatim>\<open>dict\<close>.\<close>

definition quality_dict :: "(string \<times> pyval) list \<Rightarrow> (string \<times> pyval) list option" where
  "quality_dict kvs =
     (case map_of kvs ''quality'' of
        None \<Rightarrow> Some []
      | Some (PDict q) \<Rightarrow> Some q
      | Some v \<Rightarrow> None)"

text \<open>The caption member, when it is absent or a string.\<close>

definition caption_text :: "(string \<times> pyval) list \<Rightarrow> string option" where
  "caption_text kvs =
     (case map_of kvs ''caption'' of
        None \<Rightarrow> Some []
      | Some (PStr c) \<Rightarrow> Some c
      | Some v \<Rightarrow> None)"

definition or_default :: "(string \<times> pyval) list \<Rightarrow> string \<Rightarrow> pyval" where
  "or_default q key = (case map_of q key of None \<Rightarrow> PFloat (8 / 10) | Some v \<Rightarrow> v)"

subsection \<open>Example inputs\<close>

text \<open>The service with the defaults of \<^verbatim>\<open>__init__\<close>, and one configured for three retries.\<close>

definition default_service :: vision_service where
  "default_service =
     \<lparr>backend = ''ollama'', base_url = ''http://localhost:11434'', model_name = ''qwen3-vl:4b'',
      timeout_seconds = 30, max_retries = 2, auto_pull = True\<rparr>"

definition patient_service :: vision_service where
  "patient_service = default_service\<lparr>max_retries := 3\<rparr>"

definition no_effects :: effects where
  "no_effects = \<lparr>inference_calls = [], sleeps = []\<rparr>"

text \<open>A backend that is overloaded at the first call and answers from the second call on.\<close>

definition busy_once :: world where
  "busy_once =
     \<lparr>answer = (\<lambda>k.
        if k = 0 then Responded \<lparr>status = 503, body_text = ''overloaded'', message_content = []\<rparr>
        else Responded \<lparr>status = 200, body_text = [], message_content = ''a cat on a sofa''\<rparr>),
      sleep_raises = (\<lambda>k. None)\<rparr>"

text \<open>A backend that rejects every request as malformed.\<close>

definition always_bad_request :: world where
  "always_bad_request =
     \<lparr>answer = (\<lambda>k. Responded \<lparr>status = 400, body_text = ''bad request'', message_content = []\<rparr>),
      sleep_raises = (\<lambda>k. None)\<rparr>"

text \<open>An image file that cannot be opened: every call raises at \<^verbatim>\<open>open(image_path, 'rb')\<close>.\<close>

definition unreadable_image :: world where
  "unreadable_image =
     \<lparr>answer = (\<lambda>k. Raised (OtherException
                 (''[Errno 2] No such file or directory: '' @ CHR 0x27 # ''cat.png'' @ [CHR 0x27]))),
      sleep_raises = (\<lambda>k. None)\<rparr>"

text \<open>A backend that answers at once.\<close>

definition answers_at_once :: world where
  "answers_at_once =
     \<lparr>answer = (\<lambda>k. Responded \<lparr>status = 200, body_text = [], message_content = ''a cat on a sofa''\<rparr>),
      sleep_raises = (\<lambda>k. None)\<rparr>"

text \<open>A task that is cancelled while its first inference call is awaited.\<close>

definition cancelled_at_once :: world where
  "cancelled_at_once =
     \<lparr>answer = (\<lambda>k. Raised (OtherBaseException [])), sleep_raises = (\<lambda>k. None)\<rparr>"

text \<open>
  What \<^verbatim>\<open>json.loads\<close> raises on a text that is nested more deeply than the recursion
  limit allows.
\<close>

definition deep_nesting_error :: exn where
  "deep_nesting_error =
     RecursionError
       ''maximum recursion depth exceeded while decoding a JSON array from a unicode string''"

text \<open>
  What \<^verbatim>\<open>json.loads\<close> does on a few texts: two that are JSON, any text of a hundred
  thousand or more opening brackets and nothing else, on which the decoder exceeds the
  recursion limit, and other texts, which here are not JSON.
\<close>

definition json_examples :: "string \<Rightarrow> loads_outcome" where
  \<open>json_examples raw =
     (if 100000 \<le> length raw \<and> set raw = {CHR ''[''} then
        LoadsRaised deep_nesting_error
      else if raw = ''{"caption": "a cat", "quality": {"sharpness": 0.9}}'' then
        Decoded (PDict [(''caption'', PStr ''a cat''),
                        (''quality'', PDict [(''sharpness'', PFloat (9 / 10))])])
      else if raw = ''"A cat on a sofa."'' then Decoded (PStr ''A cat on a sofa.'')
      else JSONDecodeError)\<close>

text \<open>The effects of a call that needed a second attempt, and the two calls it made.\<close>

definition describe_cat :: inference_call where
  "describe_cat = OllamaInference ''cat.png'' ''Describe the cat.''"

definition two_calls_one_sleep :: effects where
  "two_calls_one_sleep = \<lparr>inference_calls = [describe_cat, describe_cat], sleeps = [2]\<rparr>"

text \<open>The effects of a call that made one inference call.\<close>

definition one_call :: effects where
  "one_call = \<lparr>inference_calls = [describe_cat], sleeps = []\<rparr>"

text \<open>What a call makes of an image that cannot be opened, with two retries.\<close>

definition opened_three_times :: effects where
  "opened_three_times =
     \<lparr>inference_calls = [describe_cat, describe_cat, describe_cat], sleeps = [2, 4]\<rparr>"

definition opened_three_times_error :: exn where
  "opened_three_times_error =
     VisionModelError (''Vision inference failed after 3 attempts: ''
       @ ''[Errno 2] No such file or directory: '' @ CHR 0x27 # ''cat.png'' @ [CHR 0x27])"

text \<open>Responses of the backend API to the frontend.\<close>

definition job_not_found :: response where
  "job_not_found =
     \<lparr>resp_status = 404, statusText = ''Not Found'',
      resp_json = Inr (JObj [(''detail'', JStr ''Job not found'')])\<rparr>"

definition no_content :: response where
  "no_content = \<lparr>resp_status = 204, statusText = ''No Content'', resp_json = Inl SyntaxError\<rparr>"

definition job_list :: response where
  "job_list = \<lparr>resp_status = 200, statusText = ''OK'', resp_json = Inr (JArr [])\<rparr>"

definition null_body :: response where
  "null_body = \<lparr>resp_status = 200, statusText = ''OK'', resp_json = Inr JNull\<rparr>"

definition empty_body :: response where
  "empty_body = \<lparr>resp_status = 200, statusText = ''OK'', resp_json = Inl SyntaxError\<rparr>"

text \<open>A job over five files with two captions recorded while it runs.\<close>

definition two_of_five :: "event list" where
  "two_of_five =
     [StartJob 1 [10, 11, 12, 13, 14] 0, BeginRun 1 1, Dispatch 1, Dispatch 1,
      Report 1 11 (Generated ''a dog''), Report 1 10 (Generated ''a cat'')]"

definition two_of_five_job :: caption_job where
  "two_of_five_job =
     \<lparr>current_status = Running, total_count = 5, completed_count = 2, failed_count = 0,
      skipped_count = 0, last_error = None, created_at = 0, started_at = Some 1,
      paused_at = None, completed_at = None, work_list = [10, 11, 12, 13, 14],
      recovery_payload = [(11, Generated ''a dog''), (10, Generated ''a cat'')]\<rparr>"

text \<open>A job over two files that is run to completion.\<close>

definition both_done :: "event list" where
  "both_done =
     [StartJob 1 [10, 11] 0, BeginRun 1 1, Dispatch 1, Report 1 10 (Generated ''a cat''),
      Dispatch 1, Report 1 11 (ItemFailed ''timeout''), Complete 1 5]"

definition both_done_job :: caption_job where
  "both_done_job =
     \<lparr>current_status = Completed, total_count = 2, completed_count = 1, failed_count = 1,
      skipped_count = 0, last_error = None, created_at = 0, started_at = Some 1,
      paused_at = None, completed_at = Some 5, work_list = [10, 11],
      recovery_payload = [(10, Generated ''a cat''), (11, ItemFailed ''timeout'')]\<rparr>"

section \<open>Properties of the retry loop\<close>

lemma read_answer_fails:
  "fails out \<Longrightarrow> \<exists>e. read_answer api out = Inl e \<and> is_Exception e"
  by (auto simp: read_answer_def fails_def split: io_outcome.splits)

lemma read_answer_Inl:
  "read_answer api out = Inl e \<Longrightarrow>
   (is_Exception e \<and> fails out) \<or> (\<not> is_Exception e \<and> out = Raised e)"
  by (auto simp: read_answer_def fails_def split: io_outcome.splits if_splits)

lemma attempt_inference_supported:
  "supported self \<Longrightarrow>
   attempt_inference self w image_path prompt s =
     (read_answer (api_name self) (answer w (length (inference_calls s))),
      s\<lparr>inference_calls := inference_calls s @ [inference_call_of self image_path prompt]\<rparr>)"
  by (auto simp: supported_def attempt_inference_def ollama_inference_def lmstudio_inference_def
        api_name_def inference_call_of_def)

lemma retry_exhausted:
  "\<not> attempt < max_retries self + 1 \<Longrightarrow>
   retry_loop self w image_path prompt attempt prev s =
     (Inl (VisionModelError (''Vision inference failed after '' @ str_int (max_retries self + 1)
             @ '' attempts: '' @ str_last_error prev)), s)"
  by (subst retry_loop.simps) simp

lemma retry_success:
  "supported self \<Longrightarrow> attempt < max_retries self + 1 \<Longrightarrow>
   read_answer (api_name self) (answer w (length (inference_calls s))) = Inr reply \<Longrightarrow>
   retry_loop self w image_path prompt attempt prev s =
     (Inr reply,
      s\<lparr>inference_calls := inference_calls s @ [inference_call_of self image_path prompt]\<rparr>)"
  by (subst retry_loop.simps) (simp add: attempt_inference_supported)

lemma retry_not_caught:
  "supported self \<Longrightarrow> attempt < max_retries self + 1 \<Longrightarrow>
   read_answer (api_name self) (answer w (length (inference_calls s))) = Inl e \<Longrightarrow>
   \<not> is_Exception e \<Longrightarrow>
   retry_loop self w image_path prompt attempt prev s =
     (Inl e,
      s\<lparr>inference_calls := inference_calls s @ [inference_call_of self image_path prompt]\<rparr>)"
  by (subst retry_loop.simps) (simp add: attempt_inference_supported)

lemma retry_last_failure:
  "supported self \<Longrightarrow> attempt < max_retries self + 1 \<Longrightarrow> \<not> attempt < max_retries self \<Longrightarrow>
   read_answer (api_name self) (answer w (length (inference_calls s))) = Inl e \<Longrightarrow>
   is_Exception e \<Longrightarrow>
   retry_loop self w image_path prompt attempt prev s =
     retry_loop self w image_path prompt (attempt + 1) (Some e)
       (s\<lparr>inference_calls := inference_calls s @ [inference_call_of self image_path prompt]\<rparr>)"
  by (subst retry_loop.simps) (simp add: attempt_inference_supported)

lemma retry_failure:
  "supported self \<Longrightarrow> attempt < max_retries self \<Longrightarrow>
   read_answer (api_name self) (answer w (length (inference_calls s))) = Inl e \<Longrightarrow>
   is_Exception e \<Longrightarrow> sleep_raises w (length (sleeps s)) = None \<Longrightarrow>
   retry_loop self w image_path prompt attempt prev s =
     retry_loop self w image_path prompt (attempt + 1) (Some e)
       (s\<lparr>inference_calls := inference_calls s @ [inference_call_of self image_path prompt],
          sleeps := sleeps s @ [(attempt + 1) * 2]\<rparr>)"
  by (subst retry_loop.simps) (simp add: attempt_inference_supported sleep_def)

lemma retry_sleep_raises:
  "supported self \<Longrightarrow> attempt < max_retries self \<Longrightarrow>
   read_answer (api_name self) (answer w (length (inference_calls s))) = Inl e \<Longrightarrow>
   is_Exception e \<Longrightarrow> sleep_raises w (length (sleeps s)) = Some e' \<Longrightarrow>
   retry_loop self w image_path prompt attempt prev s =
     (Inl e',
      s\<lparr>inference_calls := inference_calls s @ [inference_call_of self image_path prompt],
        sleeps := sleeps s @ [(attempt + 1) * 2]\<rparr>)"
  by (subst retry_loop.simps) (simp add: attempt_inference_supported sleep_def)

text \<open>When the next \<open>m\<close> attempts all fail, no sleep between them raises, and \<open>m\<close> iterations
  are left, the loop runs them all.\<close>

lemma retry_loop_all_fail:
  assumes "supported self"
  shows "m = nat (max_retries self + 1 - attempt) \<Longrightarrow>
         (\<forall>j < m. fails (answer w (length (inference_calls s) + j))) \<Longrightarrow>
         (\<forall>j < m - 1. sleep_raises w (length (sleeps s) + j) = None) \<Longrightarrow>
         retry_loop self w image_path prompt attempt prev s =
           (Inl (VisionModelError (''Vision inference failed after ''
                   @ str_int (max_retries self + 1) @ '' attempts: ''
                   @ str_last_error
                       (if m = 0 then prev
                        else Some (projl (read_answer (api_name self)
                                     (answer w (length (inference_calls s) + (m - 1)))))))),
            s\<lparr>inference_calls := inference_calls s
                  @ replicate m (inference_call_of self image_path prompt),
              sleeps := sleeps s @ map (\<lambda>j. (attempt + int j + 1) * 2) [0..<m - 1]\<rparr>)"
proof (induction m arbitrary: attempt prev s)
  case 0
  then show ?case by (simp add: retry_exhausted)
next
  case (Suc m)
  let ?n = "length (inference_calls s)"
  let ?c = "inference_call_of self image_path prompt"
  have lt: "attempt < max_retries self + 1" using Suc.prems(1) by simp
  have "fails (answer w ?n)" using Suc.prems(2) by (auto dest: spec[of _ 0])
  then obtain e where e: "read_answer (api_name self) (answer w ?n) = Inl e" "is_Exception e"
    using read_answer_fails by blast
  have m: "m = nat (max_retries self + 1 - (attempt + 1))" using Suc.prems(1) by simp
  show ?case
  proof (cases m)
    case 0
    then have na: "\<not> attempt < max_retries self" using Suc.prems(1) by simp
    let ?s1 = "s\<lparr>inference_calls := inference_calls s @ [?c]\<rparr>"
    have step: "retry_loop self w image_path prompt attempt prev s =
                  retry_loop self w image_path prompt (attempt + 1) (Some e) ?s1"
      using assms lt na e by (rule retry_last_failure)
    have ex: "\<not> attempt + 1 < max_retries self + 1" using na by simp
    show ?thesis
      apply (subst step)
      apply (subst retry_exhausted[OF ex])
      apply (simp only: 0)
      apply (simp add: e)
      done
  next
    case (Suc k)
    then have a: "attempt < max_retries self" using m by simp
    have sl: "sleep_raises w (length (sleeps s)) = None"
      using Suc.prems(3) Suc by (auto dest: spec[of _ 0])
    let ?s1 = "s\<lparr>inference_calls := inference_calls s @ [?c],
                 sleeps := sleeps s @ [(attempt + 1) * 2]\<rparr>"
    have step: "retry_loop self w image_path prompt attempt prev s =
                  retry_loop self w image_path prompt (attempt + 1) (Some e) ?s1"
      using assms a e sl by (rule retry_failure)
    have fl: "\<forall>j<m. fails (answer w (length (inference_calls ?s1) + j))"
      using Suc.prems(2) by (auto dest: spec[of _ "Suc j" for j])
    have sl': "\<forall>j<m - 1. sleep_raises w (length (sleeps ?s1) + j) = None"
      using Suc.prems(3) Suc by (auto dest: spec[of _ "Suc j" for j])
    note IH = Suc.IH[OF m fl sl', of "Some e"]
    have len1: "length (inference_calls ?s1) = Suc ?n" by simp
    show ?thesis
      apply (subst step)
      apply (subst IH)
      apply (simp only: Suc len1)
      apply (simp add: replicate_app_Cons_same map_upt_Suc algebra_simps del: upt_Suc)
      done
  qed
qed

lemma loop_result_later:
  assumes "loop_result self w (Suc n) z' m (Some e) k r"
      and "read_answer (api_name self) (answer w n) = Inl e" and "is_Exception e"
      and "0 < k \<longrightarrow> z' = Suc z"
  shows "loop_result self w n z (Suc m) prev (Suc k) r"
proof -
  have f0: "fails (answer w n)"
    using assms(2,3) read_answer_Inl by blast
  have all: "\<forall>j < k. fails (answer w (n + j))" if "\<forall>j < k - 1. fails (answer w (Suc n + j))"
  proof (intro allI impI)
    fix j assume "j < k"
    show "fails (answer w (n + j))"
    proof (cases j)
      case 0 then show ?thesis using f0 by simp
    next
      case (Suc i)
      with \<open>j < k\<close> have "i < k - 1" by simp
      with that Suc show ?thesis by simp
    qed
  qed
  have all': "\<forall>j < Suc k. fails (answer w (n + j))" if "\<forall>j < k. fails (answer w (Suc n + j))"
  proof (intro allI impI)
    fix j assume "j < Suc k"
    show "fails (answer w (n + j))"
    proof (cases j)
      case 0 then show ?thesis using f0 by simp
    next
      case (Suc i)
      with \<open>j < Suc k\<close> have "i < k" by simp
      with that Suc show ?thesis by simp
    qed
  qed
  have idx: "Suc n + (k - 1) = n + k" if "0 < k" using that by simp
  show ?thesis
  proof (cases r)
    case (Inr reply)
    with assms(1) all idx show ?thesis by (auto simp: loop_result_def)
  next
    case (Inl e')
    show ?thesis
    proof (cases k)
      case 0
      with assms(1) Inl assms(2) f0 show ?thesis by (auto simp: loop_result_def)
    next
      case (Suc k')
      then have z: "z' = Suc z" using assms(4) by simp
      from assms(1) Inl Suc all all' show ?thesis
        unfolding loop_result_def z by auto
    qed
  qed
qed

text \<open>How every run of the retry loop ends.\<close>

lemma retry_loop_outcome:
  assumes "supported self"
  shows "m = nat (max_retries self + 1 - attempt) \<Longrightarrow>
         retry_loop self w image_path prompt attempt prev s = (r, s') \<Longrightarrow>
         \<exists>k \<le> m.
           inference_calls s' =
             inference_calls s @ replicate k (inference_call_of self image_path prompt)
           \<and> loop_result self w (length (inference_calls s)) (length (sleeps s)) m prev k r"
proof (induction m arbitrary: attempt prev s)
  case 0
  then have "\<not> attempt < max_retries self + 1" by simp
  from retry_exhausted[OF this] "0.prems"(2) show ?case
    by (intro exI[of _ 0]) (auto simp: loop_result_def)
next
  case (Suc m)
  let ?n = "length (inference_calls s)"
  let ?z = "length (sleeps s)"
  let ?c = "inference_call_of self image_path prompt"
  let ?s1 = "s\<lparr>inference_calls := inference_calls s @ [?c]\<rparr>"
  have lt: "attempt < max_retries self + 1" using Suc.prems(1) by simp
  have m: "m = nat (max_retries self + 1 - (attempt + 1))" using Suc.prems(1) by simp
  show ?case
  proof (cases "read_answer (api_name self) (answer w ?n)")
    case (Inr reply)
    from retry_success[OF assms lt Inr, of image_path prompt prev] Suc.prems(2)
    have r: "r = Inr reply" and s': "s' = ?s1" by simp_all
    show ?thesis
      unfolding r s' using Inr by (intro exI[of _ 1]) (simp add: loop_result_def)
  next
    case (Inl e)
    show ?thesis
    proof (cases "is_Exception e")
      case False
      from Inl False have raised: "answer w ?n = Raised e" using read_answer_Inl by blast
      from retry_not_caught[OF assms lt Inl False, of image_path prompt prev] Suc.prems(2)
      have r: "r = Inl e" and s': "s' = ?s1" by simp_all
      show ?thesis
        unfolding r s' using raised False by (intro exI[of _ 1]) (simp add: loop_result_def)
    next
      case True
      have f0: "fails (answer w ?n)" using Inl True read_answer_Inl by blast
      show ?thesis
      proof (cases "attempt < max_retries self")
        case False
        from retry_last_failure[OF assms lt False Inl True] Suc.prems(2)
        have run: "retry_loop self w image_path prompt (attempt + 1) (Some e) ?s1 = (r, s')"
          by simp
        from Suc.IH[OF m run] obtain k where k: "k \<le> m"
          "inference_calls s' = inference_calls ?s1 @ replicate k ?c"
          "loop_result self w (length (inference_calls ?s1)) (length (sleeps ?s1)) m (Some e) k r"
          by blast
        from False m have "m = 0" by simp
        with k(1) have k0: "k = 0" by simp
        have "loop_result self w ?n ?z (Suc m) prev (Suc k) r"
          using k(3) Inl True k0 by (intro loop_result_later[where z' = ?z]) simp_all
        with k(1,2) show ?thesis
          by (intro exI[of _ "Suc k"]) (simp add: replicate_app_Cons_same)
      next
        case a: True
        show ?thesis
        proof (cases "sleep_raises w ?z")
          case (Some e')
          from retry_sleep_raises[OF assms a Inl True Some, of image_path prompt prev]
            Suc.prems(2)
          have r: "r = Inl e'" and s': "inference_calls s' = inference_calls s @ [?c]"
            by auto
          have "1 < Suc m" using a m by simp
          then show ?thesis
            unfolding r using s' f0 Some by (intro exI[of _ 1]) (simp add: loop_result_def)
        next
          case None
          let ?s2 = "s\<lparr>inference_calls := inference_calls s @ [?c],
                        sleeps := sleeps s @ [(attempt + 1) * 2]\<rparr>"
          from retry_failure[OF assms a Inl True None] Suc.prems(2)
          have run: "retry_loop self w image_path prompt (attempt + 1) (Some e) ?s2 = (r, s')"
            by simp
          from Suc.IH[OF m run] obtain k where k: "k \<le> m"
            "inference_calls s' = inference_calls ?s2 @ replicate k ?c"
            "loop_result self w (length (inference_calls ?s2)) (length (sleeps ?s2)) m (Some e) k r"
            by blast
          have "loop_result self w ?n ?z (Suc m) prev (Suc k) r"
            using k(3) Inl True by (intro loop_result_later[where z' = "Suc ?z"]) simp_all
          with k(1,2) show ?thesis
            by (intro exI[of _ "Suc k"]) (simp add: replicate_app_Cons_same)
        qed
      qed
    qed
  qed
qed

text \<open>
  C1, as amended. One call of the client makes up to \<^verbatim>\<open>max_retries + 1\<close> attempts: an
  attempt that fails with an exception that \<^verbatim>\<open>except Exception\<close> catches, of whatever
  kind (timeout, refused connection, a status other than 200, unreadable image), is
  followed by another attempt, and the call returns with the first attempt that succeeds.
  When every attempt has failed in this way the call raises a \<^verbatim>\<open>VisionModelError\<close> that
  carries the text of the last failure; the failures are not classified as transient or
  permanent. The call ends earlier with an exception only when an attempt raises what
  \<^verbatim>\<open>except Exception\<close> does not catch (a cancellation), or when the sleep after a failed
  attempt raises.
\<close>

theorem client_retries_internally:
  assumes "supported self"
      and "call_vision_model_with_retry self w image_path prompt s = (r, s')"
  shows "\<exists>k \<le> nat (max_retries self + 1).
           inference_calls s' =
             inference_calls s @ replicate k (inference_call_of self image_path prompt)
           \<and> (\<forall>j < k - 1. fails (answer w (length (inference_calls s) + j)))
           \<and> (case r of
                Inr reply \<Rightarrow>
                  0 < k
                  \<and> read_answer (api_name self) (answer w (length (inference_calls s) + (k - 1)))
                      = Inr reply
              | Inl e \<Rightarrow>
                  (k = nat (max_retries self + 1)
                   \<and> (\<forall>j < k. fails (answer w (length (inference_calls s) + j)))
                   \<and> e = VisionModelError (''Vision inference failed after ''
                         @ str_int (max_retries self + 1) @ '' attempts: ''
                         @ str_last_error
                             (if k = 0 then None
                              else Some (projl (read_answer (api_name self)
                                     (answer w (length (inference_calls s) + (k - 1))))))))
                  \<or> (0 < k \<and> \<not> is_Exception e
                      \<and> answer w (length (inference_calls s) + (k - 1)) = Raised e)
                  \<or> (0 < k \<and> k < nat (max_retries self + 1)
                      \<and> fails (answer w (length (inference_calls s) + (k - 1)))
                      \<and> sleep_raises w (length (sleeps s) + (k - 1)) = Some e))"
proof -
  have m: "nat (max_retries self + 1) = nat (max_retries self + 1 - 0)" by simp
  from assms(2) have run: "retry_loop self w image_path prompt 0 None s = (r, s')"
    by (simp add: call_vision_model_with_retry_def)
  from retry_loop_outcome[OF assms(1) m run] show ?thesis
    unfolding loop_result_def by blast
qed

text \<open>
  A call with the default service against a backend that is busy once, and a call that
  is cancelled while it awaits the first answer: the theorem applies to both. The first
  makes two calls and returns the second answer; the second ends after one call with the
  cancellation.
\<close>

theorem client_retries_internally_witness:
  "supported default_service
   \<and> call_vision_model_with_retry default_service busy_once ''cat.png'' ''Describe the cat.''
        no_effects = (Inr ''a cat on a sofa'', two_calls_one_sleep)
   \<and> (\<exists>k \<le> nat (max_retries default_service + 1).
           inference_calls two_calls_one_sleep =
             inference_calls no_effects
               @ replicate k (inference_call_of default_service ''cat.png'' ''Describe the cat.'')
           \<and> 0 < k
           \<and> read_answer (api_name default_service)
                 (answer busy_once (length (inference_calls no_effects) + (k - 1)))
               = Inr ''a cat on a sofa'')
   \<and> call_vision_model_with_retry default_service cancelled_at_once ''cat.png''
        ''Describe the cat.'' no_effects = (Inl (OtherBaseException []), one_call)
   \<and> (\<exists>k \<le> nat (max_retries default_service + 1).
           inference_calls one_call =
             inference_calls no_effects
               @ replicate k (inference_call_of default_service ''cat.png'' ''Describe the cat.''))"
proof -
  have h1: "supported default_service"
    by (simp add: supported_def default_service_def)
  have h2: "call_vision_model_with_retry default_service busy_once ''cat.png''
              ''Describe the cat.'' no_effects = (Inr ''a cat on a sofa'', two_calls_one_sleep)"
    by code_simp
  have h3: "call_vision_model_with_retry default_service cancelled_at_once ''cat.png''
              ''Describe the cat.'' no_effects = (Inl (OtherBaseException []), one_call)"
    by code_simp
  from client_retries_internally[OF h1 h2]
  have c2: "\<exists>k \<le> nat (max_retries default_service + 1).
           inference_calls two_calls_one_sleep =
             inference_calls no_effects
               @ replicate k (inference_call_of default_service ''cat.png'' ''Describe the cat.'')
           \<and> 0 < k
           \<and> read_answer (api_name default_service)
                 (answer busy_once (length (inference_calls no_effects) + (k - 1)))
               = Inr ''a cat on a sofa''"
    by auto
  from client_retries_internally[OF h1 h3]
  have c3: "\<exists>k \<le> nat (max_retries default_service + 1).
           inference_calls one_call =
             inference_calls no_effects
               @ replicate k (inference_call_of default_service ''cat.png'' ''Describe the cat.'')"
    by auto
  show ?thesis using h1 h2 h3 c2 c3 by (intro conjI)
qed

text \<open>
  C1 as stated fails: against a backend that answers 503 once, a single call of the
  client makes two attempts, sleeps two seconds between them, and returns the second
  answer; the failure never reaches the caller.
\<close>

theorem second_attempt_after_failure:
  "call_vision_model_with_retry default_service busy_once ''cat.png'' ''Describe the cat.''
     \<lparr>inference_calls = [], sleeps = []\<rparr>
   = (Inr ''a cat on a sofa'',
      \<lparr>inference_calls = [OllamaInference ''cat.png'' ''Describe the cat.'',
                          OllamaInference ''cat.png'' ''Describe the cat.''],
       sleeps = [2]\<rparr>)"
  by code_simp

text \<open>
  C2, as amended. A failure that \<^verbatim>\<open>except Exception\<close> catches is retried whatever its
  kind, transient or permanent: when each of the \<^verbatim>\<open>max_retries + 1\<close> attempts fails in
  such a way and no sleep between them raises, the client makes all of them, waits
  \<open>2, 4, 6, \<dots>\<close> seconds between them (a wait that grows linearly, by two seconds per
  attempt) and then raises a \<^verbatim>\<open>VisionModelError\<close> with the text of the last failure.
\<close>

theorem every_failure_is_retried:
  assumes "supported self"
      and "0 \<le> max_retries self"
      and "\<forall>k \<le> nat (max_retries self). fails (answer w (length (inference_calls s) + k))"
      and "\<forall>k < nat (max_retries self). sleep_raises w (length (sleeps s) + k) = None"
  shows "call_vision_model_with_retry self w image_path prompt s =
           (Inl (VisionModelError (''Vision inference failed after ''
                   @ str_int (max_retries self + 1) @ '' attempts: ''
                   @ str_exn (projl (read_answer (api_name self)
                        (answer w (length (inference_calls s) + nat (max_retries self))))))),
            s\<lparr>inference_calls := inference_calls s
                  @ replicate (nat (max_retries self) + 1)
                      (inference_call_of self image_path prompt),
              sleeps := sleeps s @ map (\<lambda>k. (int k + 1) * 2) [0..<nat (max_retries self)]\<rparr>)"
proof -
  have m: "Suc (nat (max_retries self)) = nat (max_retries self + 1 - 0)"
    using assms(2) by simp
  have fl: "\<forall>j < Suc (nat (max_retries self)).
              fails (answer w (length (inference_calls s) + j))"
    using assms(3) by (simp add: less_Suc_eq_le)
  have sl: "\<forall>j < Suc (nat (max_retries self)) - 1.
              sleep_raises w (length (sleeps s) + j) = None"
    using assms(4) by simp
  show ?thesis
    unfolding call_vision_model_with_retry_def
    by (subst retry_loop_all_fail[OF assms(1) m fl sl]) (simp add: str_last_error_def)
qed

text \<open>
  An image that cannot be opened, with the default of two retries: the theorem applies,
  so the file is opened three times, two and four seconds apart.
\<close>

theorem every_failure_is_retried_witness:
  "supported default_service
   \<and> 0 \<le> max_retries default_service
   \<and> fails (answer unreadable_image 0) \<and> fails (answer unreadable_image 1)
   \<and> fails (answer unreadable_image 2)
   \<and> sleep_raises unreadable_image 0 = None \<and> sleep_raises unreadable_image 1 = None
   \<and> call_vision_model_with_retry default_service unreadable_image ''cat.png''
        ''Describe the cat.'' no_effects =
           (Inl (VisionModelError (''Vision inference failed after ''
                   @ str_int (max_retries default_service + 1) @ '' attempts: ''
                   @ str_exn (projl (read_answer (api_name default_service)
                        (answer unreadable_image (length (inference_calls no_effects)
                           + nat (max_retries default_service))))))),
            no_effects\<lparr>inference_calls := inference_calls no_effects
                  @ replicate (nat (max_retries default_service) + 1)
                      (inference_call_of default_service ''cat.png'' ''Describe the cat.''),
              sleeps := sleeps no_effects
                  @ map (\<lambda>k. (int k + 1) * 2) [0..<nat (max_retries default_service)]\<rparr>)
   \<and> call_vision_model_with_retry default_service unreadable_image ''cat.png''
        ''Describe the cat.'' no_effects = (Inl opened_three_times_error, opened_three_times)"
proof -
  have h1: "supported default_service"
    by (simp add: supported_def default_service_def)
  have h2: "0 \<le> max_retries default_service"
    by (simp add: default_service_def)
  have f: "fails (answer unreadable_image k)" for k
    by (simp add: fails_def unreadable_image_def)
  have z: "sleep_raises unreadable_image k = None" for k
    by (simp add: unreadable_image_def)
  have h3: "\<forall>k \<le> nat (max_retries default_service).
              fails (answer unreadable_image (length (inference_calls no_effects) + k))"
    using f by simp
  have h4: "\<forall>k < nat (max_retries default_service).
              sleep_raises unreadable_image (length (sleeps no_effects) + k) = None"
    using z by simp
  have v: "call_vision_model_with_retry default_service unreadable_image ''cat.png''
        ''Describe the cat.'' no_effects = (Inl opened_three_times_error, opened_three_times)"
    by code_simp
  show ?thesis
    using h1 h2 f z v every_failure_is_retried[OF h1 h2 h3 h4] by (intro conjI)
qed

text \<open>
  C2 as stated fails: a request that the backend rejects as malformed (status 400, a
  permanent failure) is sent four times when three retries are configured, not once, and
  the waits between the attempts are 2, 4 and 6 seconds, which is not an exponential
  backoff.
\<close>

theorem bad_request_is_retried:
  "call_vision_model_with_retry patient_service always_bad_request ''cat.png''
     ''Describe the cat.'' \<lparr>inference_calls = [], sleeps = []\<rparr>
   = (Inl (VisionModelError
             ''Vision inference failed after 4 attempts: Ollama API error (400): bad request''),
      \<lparr>inference_calls = [OllamaInference ''cat.png'' ''Describe the cat.'',
                          OllamaInference ''cat.png'' ''Describe the cat.'',
                          OllamaInference ''cat.png'' ''Describe the cat.'',
                          OllamaInference ''cat.png'' ''Describe the cat.''],
       sleeps = [2, 4, 6]\<rparr>)"
  by code_simp

section \<open>Properties of caption generation\<close>

text \<open>
  With a supported backend and a maximum of retries that is not negative, one call of
  the client makes at least one inference call and at most \<^verbatim>\<open>max_retries + 1\<close>, each with
  the image path and the prompt that it was given, and makes no other.
\<close>

lemma call_makes_inference_calls:
  assumes "supported self" and "0 \<le> max_retries self"
  shows "\<exists>k. 0 < k \<and> k \<le> nat (max_retries self + 1)
           \<and> inference_calls (snd (call_vision_model_with_retry self w image_path prompt s))
               = inference_calls s @ replicate k (inference_call_of self image_path prompt)"
proof -
  obtain r s' where run: "retry_loop self w image_path prompt 0 None s = (r, s')"
    by fastforce
  have m: "nat (max_retries self + 1) = nat (max_retries self + 1 - 0)" by simp
  from retry_loop_outcome[OF assms(1) m run]
  obtain k where k: "k \<le> nat (max_retries self + 1)"
      and calls: "inference_calls s' =
                    inference_calls s @ replicate k (inference_call_of self image_path prompt)"
      and res: "loop_result self w (length (inference_calls s)) (length (sleeps s))
                  (nat (max_retries self + 1)) None k r"
    by blast
  have "0 < nat (max_retries self + 1)" using assms(2) by simp
  with res have "0 < k"
    unfolding loop_result_def by (cases r) auto
  with k calls run show ?thesis
    by (auto simp: call_vision_model_with_retry_def)
qed

lemma generate_caption_effects:
  "snd (generate_caption json_loads self w elapsed_ms image_path style max_length
          custom_prompt s)
   = snd (call_vision_model_with_retry self w image_path
            (caption_prompt style max_length custom_prompt) s)"
  by (simp add: generate_caption_def Let_def split: prod.splits sum.splits)

lemma generate_caption_calls:
  assumes "supported self" and "0 \<le> max_retries self"
  shows "\<exists>k. 0 < k \<and> k \<le> nat (max_retries self + 1)
           \<and> inference_calls (snd (generate_caption json_loads self w elapsed_ms image_path
                 style max_length custom_prompt s))
               = inference_calls s
                   @ replicate k (inference_call_of self image_path
                       (caption_prompt style max_length custom_prompt))"
  unfolding generate_caption_effects
  by (rule call_makes_inference_calls[OF assms])

text \<open>
  C4. The listed \<^verbatim>\<open>generate_caption\<close> departs from the claim, and from what the rest of
  the repository says of it, when a custom prompt is given. With the custom prompt
  \<open>Describe the cat.\<close> and the style \<^verbatim>\<open>natural_simple\<close> the prompt sent to the backend is
  that text alone: the output-format instructions, with which the template of the same
  style ends, are not appended, and there is no trigger phrase among the inputs of
  \<^verbatim>\<open>generate_caption\<close> that could be injected.
\<close>

theorem custom_prompt_without_format_instructions:
  "caption_prompt ''natural_simple'' (Some 200) (Some ''Describe the cat.'') = ''Describe the cat.''
   \<and> \<not> suffix (output_format ''Your caption here'')
          (caption_prompt ''natural_simple'' (Some 200) (Some ''Describe the cat.''))
   \<and> suffix (output_format ''Your caption here'')
          (caption_prompt ''natural_simple'' (Some 200) None)
   \<and> inference_calls (snd (generate_caption json_examples default_service answers_at_once 1200
          ''cat.png'' ''natural_simple'' (Some 200) (Some ''Describe the cat.'') no_effects))
       = [OllamaInference ''cat.png'' ''Describe the cat.'']"
proof -
  have a: "caption_prompt ''natural_simple'' (Some 200) (Some ''Describe the cat.'')
             = ''Describe the cat.''"
    by (simp add: caption_prompt_def)
  have b: "\<not> suffix (output_format ''Your caption here'') ''Describe the cat.''"
    by (simp add: output_format_def suffix_def)
  have c: "suffix (output_format ''Your caption here'')
             (caption_prompt ''natural_simple'' (Some 200) None)"
    unfolding caption_prompt_def build_prompt_def suffix_def by auto
  have d: "inference_calls (snd (generate_caption json_examples default_service answers_at_once
             1200 ''cat.png'' ''natural_simple'' (Some 200) (Some ''Describe the cat.'')
             no_effects))
           = [OllamaInference ''cat.png'' ''Describe the cat.'']"
    unfolding generate_caption_effects a by code_simp
  show ?thesis using a b c d by simp
qed

text \<open>
  C9. An empty custom prompt is treated as absent: the prompt is the template of the
  style, and \<^verbatim>\<open>generate_caption\<close> behaves as it does without a custom prompt. With a
  supported backend and a maximum of retries that is not negative, it then makes at least
  one inference call, and every one it makes carries the template; with a custom prompt
  that is not empty, every call carries the custom prompt instead.
\<close>

theorem empty_custom_prompt_is_absent:
  "caption_prompt style max_length (Some []) = build_prompt style max_length
   \<and> generate_caption json_loads self w elapsed_ms image_path style max_length (Some []) s
       = generate_caption json_loads self w elapsed_ms image_path style max_length None s
   \<and> caption_prompt style max_length (Some (c # cs)) = c # cs
   \<and> (supported self \<and> 0 \<le> max_retries self \<longrightarrow>
        (\<exists>k. 0 < k \<and> k \<le> nat (max_retries self + 1)
           \<and> inference_calls (snd (generate_caption json_loads self w elapsed_ms image_path
                 style max_length (Some []) s))
               = inference_calls s
                   @ replicate k (inference_call_of self image_path
                       (build_prompt style max_length)))
        \<and> (\<exists>k. 0 < k \<and> k \<le> nat (max_retries self + 1)
           \<and> inference_calls (snd (generate_caption json_loads self w elapsed_ms image_path
                 style max_length (Some (c # cs)) s))
               = inference_calls s @ replicate k (inference_call_of self image_path (c # cs))))"
proof -
  have e: "caption_prompt style max_length (Some []) = build_prompt style max_length"
    by (simp add: caption_prompt_def)
  have n: "caption_prompt style max_length (Some (c # cs)) = c # cs"
    by (simp add: caption_prompt_def)
  have g: "generate_caption json_loads self w elapsed_ms image_path style max_length (Some []) s
       = generate_caption json_loads self w elapsed_ms image_path style max_length None s"
    by (simp add: caption_prompt_def generate_caption_def)
  show ?thesis
    using e n g
      generate_caption_calls[of self json_loads w elapsed_ms image_path style max_length
        "Some []" s]
      generate_caption_calls[of self json_loads w elapsed_ms image_path style max_length
        "Some (c # cs)" s]
    by simp
qed

text \<open>
  The default service with the style \<^verbatim>\<open>tags\<close> and an empty custom prompt, against a
  backend that answers at once: the theorem applies, and the one inference call carries
  the template for tags.
\<close>

theorem empty_custom_prompt_is_absent_witness:
  "supported default_service
   \<and> 0 \<le> max_retries default_service
   \<and> (\<exists>k. 0 < k \<and> k \<le> nat (max_retries default_service + 1)
           \<and> inference_calls (snd (generate_caption json_examples default_service
                 answers_at_once 1200 ''cat.png'' ''tags'' (Some 200) (Some []) no_effects))
               = inference_calls no_effects
                   @ replicate k (inference_call_of default_service ''cat.png''
                       (build_prompt ''tags'' (Some 200))))
   \<and> inference_calls (snd (generate_caption json_examples default_service
         answers_at_once 1200 ''cat.png'' ''tags'' (Some 200) (Some []) no_effects))
       = [OllamaInference ''cat.png'' (build_prompt ''tags'' (Some 200))]
   \<and> inference_calls (snd (generate_caption json_examples default_service
         answers_at_once 1200 ''cat.png'' ''tags'' (Some 200) (Some ''Describe the cat.'')
         no_effects))
       = [OllamaInference ''cat.png'' ''Describe the cat.'']"
proof -
  have h1: "supported default_service"
    by (simp add: supported_def default_service_def)
  have h2: "0 \<le> max_retries default_service"
    by (simp add: default_service_def)
  have v1: "inference_calls (snd (generate_caption json_examples default_service
         answers_at_once 1200 ''cat.png'' ''tags'' (Some 200) (Some []) no_effects))
       = [OllamaInference ''cat.png'' (build_prompt ''tags'' (Some 200))]"
    unfolding generate_caption_effects by code_simp
  have v2: "inference_calls (snd (generate_caption json_examples default_service
         answers_at_once 1200 ''cat.png'' ''tags'' (Some 200) (Some ''Describe the cat.'')
         no_effects))
       = [OllamaInference ''cat.png'' ''Describe the cat.'']"
    unfolding generate_caption_effects by code_simp
  from empty_custom_prompt_is_absent[of "''tags''" "Some 200" json_examples default_service
         answers_at_once 1200 "''cat.png''" no_effects]
       h1 h2
  have c: "\<exists>k. 0 < k \<and> k \<le> nat (max_retries default_service + 1)
           \<and> inference_calls (snd (generate_caption json_examples default_service
                 answers_at_once 1200 ''cat.png'' ''tags'' (Some 200) (Some []) no_effects))
               = inference_calls no_effects
                   @ replicate k (inference_call_of default_service ''cat.png''
                       (build_prompt ''tags'' (Some 200)))"
    by blast
  show ?thesis using h1 h2 c v1 v2 by (intro conjI)
qed

section \<open>Properties of the response parser\<close>

lemma strip_decomposes:
  "\<exists>pre post. t = pre @ strip t @ post
      \<and> list_all py_isspace pre \<and> list_all py_isspace post"
proof -
  let ?pre = "takeWhile py_isspace t"
  let ?rest = "dropWhile py_isspace t"
  let ?post = "rev (takeWhile py_isspace (rev ?rest))"
  have "rev ?rest = takeWhile py_isspace (rev ?rest) @ dropWhile py_isspace (rev ?rest)"
    by simp
  then have "?rest = strip t @ ?post"
    unfolding strip_def by (metis rev_append rev_rev_ident)
  then have "t = ?pre @ strip t @ ?post"
    by (metis takeWhile_dropWhile_id)
  moreover have "list_all py_isspace ?pre"
    by (simp add: list_all_iff) (meson set_takeWhileD)
  moreover have "list_all py_isspace ?post"
    by (simp add: list_all_iff) (meson set_takeWhileD)
  ultimately show ?thesis by blast
qed

lemma strip_ends:
  "strip t \<noteq> [] \<Longrightarrow> \<not> py_isspace (hd (strip t)) \<and> \<not> py_isspace (last (strip t))"
proof -
  assume ne: "strip t \<noteq> []"
  let ?rest = "dropWhile py_isspace t"
  let ?r = "dropWhile py_isspace (rev ?rest)"
  have s: "strip t = rev ?r" by (simp add: strip_def)
  with ne have r: "?r \<noteq> []" by simp
  then have l: "\<not> py_isspace (hd ?r)" by (rule hd_dropWhile)
  have "last (strip t) = hd ?r" using r s by (simp add: last_rev)
  with l have last: "\<not> py_isspace (last (strip t))" by simp
  have "?rest \<noteq> []" using r by (cases "?rest") simp_all
  then have h: "\<not> py_isspace (hd ?rest)" by (rule hd_dropWhile)
  obtain post where p: "?rest = strip t @ post"
    unfolding strip_def
    by (metis rev_append rev_rev_ident takeWhile_dropWhile_id)
  with ne have "hd ?rest = hd (strip t)" by simp
  with h last show ?thesis by simp
qed

text \<open>
  C3, as amended. A response on which \<^verbatim>\<open>json.loads\<close> raises \<^verbatim>\<open>JSONDecodeError\<close> gives a
  result, not an exception: the caption is the raw response with leading and trailing
  whitespace stripped (what is cut off at either end is whitespace, and what remains
  neither starts nor ends with whitespace), the quality score is 0.5, and the flags are
  \<^verbatim>\<open>["unparsed_response"]\<close>. Any other exception that \<^verbatim>\<open>json.loads\<close> raises, such as the
  \<^verbatim>\<open>RecursionError\<close> on a text nested too deeply, is not caught and leaves the parser.
\<close>

theorem unparsed_response_fallback:
  "(json_loads raw = JSONDecodeError \<longrightarrow>
      parse_response json_loads self raw style =
           Inr \<lparr>caption = strip raw,
                quality_score = PFloat (5 / 10),
                quality_details = [(''overall'', PFloat (5 / 10))],
                quality_schema_version = 1,
                flags = PList [PStr ''unparsed_response''],
                processing_time_ms = 0,
                model = model_name self,
                result_backend = backend self,
                raw_response = None\<rparr>)
   \<and> (\<forall>e. json_loads raw = LoadsRaised e \<longrightarrow>
          parse_response json_loads self raw style = Inl e)
   \<and> (\<exists>pre post. raw = pre @ strip raw @ post
          \<and> list_all py_isspace pre \<and> list_all py_isspace post)
   \<and> (strip raw \<noteq> [] \<longrightarrow>
         \<not> py_isspace (hd (strip raw)) \<and> \<not> py_isspace (last (strip raw)))"
  using strip_decomposes[of raw] strip_ends[of raw]
  by (simp add: parse_response_def)

text \<open>
  A plain sentence is not JSON: the theorem applies to it, and nothing is stripped. A
  text of a hundred thousand opening brackets exhausts the recursion limit of the
  decoder: the theorem applies to it as well, and the parser raises.
\<close>

theorem unparsed_response_fallback_witness:
  "json_examples ''A cat on a sofa.'' = JSONDecodeError
   \<and> parse_response json_examples default_service ''A cat on a sofa.'' ''tags'' =
           Inr \<lparr>caption = ''A cat on a sofa.'',
                quality_score = PFloat (5 / 10),
                quality_details = [(''overall'', PFloat (5 / 10))],
                quality_schema_version = 1,
                flags = PList [PStr ''unparsed_response''],
                processing_time_ms = 0,
                model = ''qwen3-vl:4b'',
                result_backend = ''ollama'',
                raw_response = None\<rparr>
   \<and> json_examples (replicate 100000 (CHR ''['')) = LoadsRaised deep_nesting_error
   \<and> parse_response json_examples default_service (replicate 100000 (CHR ''['')) ''tags''
       = Inl deep_nesting_error"
proof -
  have h: "json_examples ''A cat on a sofa.'' = JSONDecodeError"
    by (simp add: json_examples_def)
  have d: "json_examples (replicate 100000 (CHR ''['')) = LoadsRaised deep_nesting_error"
    by (simp add: json_examples_def)
  have s: "strip ''A cat on a sofa.'' = ''A cat on a sofa.''"
    by (simp add: strip_def py_isspace_def)
  from unparsed_response_fallback[of json_examples "''A cat on a sofa.''" default_service
         "''tags''"] h
  have p: "parse_response json_examples default_service ''A cat on a sofa.'' ''tags'' =
           Inr \<lparr>caption = strip ''A cat on a sofa.'',
                quality_score = PFloat (5 / 10),
                quality_details = [(''overall'', PFloat (5 / 10))],
                quality_schema_version = 1,
                flags = PList [PStr ''unparsed_response''],
                processing_time_ms = 0,
                model = model_name default_service,
                result_backend = backend default_service,
                raw_response = None\<rparr>"
    by blast
  from unparsed_response_fallback[of json_examples "replicate 100000 (CHR ''['')"
         default_service "''tags''"] d
  have r: "parse_response json_examples default_service (replicate 100000 (CHR ''['')) ''tags''
             = Inl deep_nesting_error"
    by blast
  from p have p': "parse_response json_examples default_service ''A cat on a sofa.'' ''tags'' =
           Inr \<lparr>caption = ''A cat on a sofa.'',
                quality_score = PFloat (5 / 10),
                quality_details = [(''overall'', PFloat (5 / 10))],
                quality_schema_version = 1,
                flags = PList [PStr ''unparsed_response''],
                processing_time_ms = 0,
                model = ''qwen3-vl:4b'',
                result_backend = ''ollama'',
                raw_response = None\<rparr>"
    unfolding s by (simp add: default_service_def)
  show ?thesis using h p' d r by (intro conjI)
qed

text \<open>
  C3 as stated fails: the caption of an undecodable response that starts with blanks and
  ends with a newline is not the raw text.
\<close>

theorem unparsed_caption_is_stripped:
  "json_examples ''  A cat.\<newline>'' = JSONDecodeError
   \<and> map_sum id caption (parse_response json_examples default_service ''  A cat.\<newline>'' ''tags'')
       = Inr ''A cat.''
   \<and> ''A cat.'' \<noteq> ''  A cat.\<newline>''"
  by (simp add: json_examples_def parse_response_def strip_def py_isspace_def)

lemma py_get_or_default: "py_get (PDict q) key (PFloat (8 / 10)) = Inr (or_default q key)"
  by (simp only: py_get.simps or_default_def)

lemma parse_data_object:
  assumes "caption_text kvs = Some c" and "quality_dict kvs = Some q"
  shows "parse_data self (PDict kvs) =
           Inr \<lparr>caption = strip c,
                quality_score = or_default q ''overall'',
                quality_details =
                  [(''sharpness'', or_default q ''sharpness''),
                   (''clarity'', or_default q ''clarity''),
                   (''composition'', or_default q ''composition''),
                   (''exposure'', or_default q ''exposure''),
                   (''overall'', or_default q ''overall'')],
                quality_schema_version = 1,
                flags = (case map_of kvs ''flags'' of None \<Rightarrow> PList [] | Some v \<Rightarrow> v),
                processing_time_ms = 0,
                model = model_name self,
                result_backend = backend self,
                raw_response = Some (PDict kvs)\<rparr>"
proof -
  have c: "and_then (py_get (PDict kvs) ''caption'' (PStr [])) f = f (PStr c)"
    for f :: "pyval \<Rightarrow> exn + 'b"
    using assms(1)
    by (auto simp: caption_text_def and_then_def split: option.splits pyval.splits)
  have q: "and_then (py_get (PDict kvs) ''quality'' (PDict [])) f = f (PDict q)"
    for f :: "pyval \<Rightarrow> exn + 'b"
    using assms(2)
    by (auto simp: quality_dict_def and_then_def split: option.splits pyval.splits)
  have g: "and_then (py_get (PDict q) key (PFloat (8 / 10))) f = f (or_default q key)"
    for key and f :: "pyval \<Rightarrow> exn + 'b"
    by (simp only: py_get_or_default and_then_def sum.case)
  show ?thesis
    unfolding parse_data_def c q g by (simp add: and_then_def)
qed

text \<open>
  C8, as amended. For a response that decodes to a JSON object whose caption is absent
  or a string and whose quality member is absent or an object, the overall score and
  each per-axis detail is the value that the quality object gives, and 0.8 where the
  quality object (or the member in it) is missing: a default that differs from the 0.5
  of an undecodable response.
\<close>

theorem quality_defaults:
  assumes "json_loads raw = Decoded (PDict kvs)"
      and "caption_text kvs = Some c"
      and "quality_dict kvs = Some q"
  shows "\<exists>result. parse_response json_loads self raw style = Inr result
           \<and> quality_score result = or_default q ''overall''
           \<and> quality_details result =
                [(''sharpness'', or_default q ''sharpness''),
                 (''clarity'', or_default q ''clarity''),
                 (''composition'', or_default q ''composition''),
                 (''exposure'', or_default q ''exposure''),
                 (''overall'', or_default q ''overall'')]
           \<and> (\<forall>key. map_of q key = None \<longrightarrow> or_default q key = PFloat (8 / 10))
           \<and> (map_of q ''overall'' = None \<longrightarrow>
                 quality_score result = PFloat (8 / 10)
                 \<and> quality_score result \<noteq> PFloat (5 / 10))"
  using assms(1) parse_data_object[OF assms(2) assms(3), of self]
  by (simp add: parse_response_def or_default_def)

text \<open>
  A response with a caption and a quality object that only rates the sharpness: the
  theorem applies, so the overall score is 0.8.
\<close>

theorem quality_defaults_witness:
  \<open>json_examples ''{"caption": "a cat", "quality": {"sharpness": 0.9}}''
     = Decoded (PDict [(''caption'', PStr ''a cat''),
                       (''quality'', PDict [(''sharpness'', PFloat (9 / 10))])])
   \<and> caption_text [(''caption'', PStr ''a cat''),
                    (''quality'', PDict [(''sharpness'', PFloat (9 / 10))])] = Some ''a cat''
   \<and> quality_dict [(''caption'', PStr ''a cat''),
                    (''quality'', PDict [(''sharpness'', PFloat (9 / 10))])]
       = Some [(''sharpness'', PFloat (9 / 10))]
   \<and> map_of [(''sharpness'', PFloat (9 / 10))] ''overall'' = None
   \<and> (\<exists>result.
         parse_response json_examples default_service
             ''{"caption": "a cat", "quality": {"sharpness": 0.9}}'' ''tags'' = Inr result
         \<and> quality_score result = PFloat (8 / 10)
         \<and> quality_score result \<noteq> PFloat (5 / 10)
         \<and> map_of (quality_details result) ''sharpness'' = Some (PFloat (9 / 10))
         \<and> map_of (quality_details result) ''clarity'' = Some (PFloat (8 / 10)))\<close>
proof -
  let ?raw = \<open>''{"caption": "a cat", "quality": {"sharpness": 0.9}}''\<close>
  let ?q = "[(''sharpness'', PFloat (9 / 10))]"
  let ?kvs = "[(''caption'', PStr ''a cat''), (''quality'', PDict ?q)]"
  have h1: "json_examples ?raw = Decoded (PDict ?kvs)"
    by (simp add: json_examples_def)
  have h2: "caption_text ?kvs = Some ''a cat''"
    by (simp add: caption_text_def)
  have h3: "quality_dict ?kvs = Some ?q"
    by (simp add: quality_dict_def)
  have h4: "map_of ?q ''overall'' = None"
    by simp
  from quality_defaults[of json_examples ?raw ?kvs "''a cat''" ?q default_service "''tags''",
         OF h1 h2 h3]
  obtain result where r:
    "parse_response json_examples default_service ?raw ''tags'' = Inr result"
    "quality_score result = or_default ?q ''overall''"
    "quality_details result =
       [(''sharpness'', or_default ?q ''sharpness''), (''clarity'', or_default ?q ''clarity''),
        (''composition'', or_default ?q ''composition''),
        (''exposure'', or_default ?q ''exposure''), (''overall'', or_default ?q ''overall'')]"
    by blast
  have "quality_score result = PFloat (8 / 10)"
    and "quality_score result \<noteq> PFloat (5 / 10)"
    and "map_of (quality_details result) ''sharpness'' = Some (PFloat (9 / 10))"
    and "map_of (quality_details result) ''clarity'' = Some (PFloat (8 / 10))"
    unfolding r(2,3) by (simp_all add: or_default_def)
  with r(1) h1 h2 h3 h4 show ?thesis by blast
qed

text \<open>
  C8 as stated fails: a response that is a JSON string decodes, has no quality object,
  and makes the parser raise an \<^verbatim>\<open>AttributeError\<close> instead of defaulting the score.
\<close>

theorem bare_json_string_raises:
  \<open>json_examples ''"A cat on a sofa."'' = Decoded (PStr ''A cat on a sofa.'')
   \<and> parse_response json_examples default_service ''"A cat on a sofa."'' ''natural_simple''
       = Inl (AttributeError (CHR 0x27 # ''str'' @ CHR 0x27 # '' object has no attribute ''
                                @ CHR 0x27 # ''get'' @ [CHR 0x27]))\<close>
  by (simp add: json_examples_def parse_response_def parse_data_def and_then_def
        no_attribute_def)

section \<open>Properties of the frontend API client\<close>

text \<open>
  C10, as amended. For a response that is not ok the request throws. For status 204 it
  returns \<^verbatim>\<open>null\<close> without reading the body. For every other ok response it settles as
  \<^verbatim>\<open>response.json()\<close> does: it returns the parsed body (which may itself be \<^verbatim>\<open>null\<close>),
  or throws when the body is not JSON. A rejected \<^verbatim>\<open>fetch\<close> throws. So a value reaches
  the caller only from an ok response.
\<close>

theorem request_outcomes:
  "(\<not> ok r \<longrightarrow> (\<exists>err. request (Resolves r) = Inl err))
   \<and> (resp_status r = 204 \<longrightarrow> request (Resolves r) = Inr JNull)
   \<and> (ok r \<and> resp_status r \<noteq> 204 \<longrightarrow> request (Resolves r) = resp_json r)
   \<and> request (Rejects err) = Inl err
   \<and> (request outcome = Inr v \<longrightarrow> (\<exists>r'. outcome = Resolves r' \<and> ok r'))"
proof (intro conjI impI)
  show "\<exists>err. request (Resolves r) = Inl err" if "\<not> ok r"
    using that by (auto simp: request_def Let_def split: sum.splits)
  show "request (Resolves r) = Inr JNull" if "resp_status r = 204"
    using that by (simp add: request_def ok_def)
  show "request (Resolves r) = resp_json r" if "ok r \<and> resp_status r \<noteq> 204"
    using that by (simp add: request_def)
  show "request (Rejects err) = Inl err"
    by (simp add: request_def)
  show "\<exists>r'. outcome = Resolves r' \<and> ok r'" if "request outcome = Inr v"
    using that
    by (auto simp: request_def Let_def split: sum.splits fetch_outcome.splits if_splits)
qed

text \<open>
  A missing job (404), a deletion (204) and a list of jobs (200): each hypothesis of the
  theorem holds of one of them.
\<close>

theorem request_outcomes_witness:
  "\<not> ok job_not_found \<and> (\<exists>err. request (Resolves job_not_found) = Inl err)
   \<and> resp_status no_content = 204 \<and> request (Resolves no_content) = Inr JNull
   \<and> (ok job_list \<and> resp_status job_list \<noteq> 204)
   \<and> request (Resolves job_list) = resp_json job_list
   \<and> request (Resolves job_list) = Inr (JArr [])
   \<and> (\<exists>r'. Resolves job_list = Resolves r' \<and> ok r')"
proof -
  have h1: "\<not> ok job_not_found" by (simp add: ok_def job_not_found_def)
  have h2: "resp_status no_content = 204" by (simp add: no_content_def)
  have h3: "ok job_list \<and> resp_status job_list \<noteq> 204" by (simp add: ok_def job_list_def)
  have t1: "\<exists>err. request (Resolves job_not_found) = Inl err"
    using request_outcomes[of job_not_found] h1 by blast
  have t2: "request (Resolves no_content) = Inr JNull"
    using request_outcomes[of no_content] h2 by blast
  have t3: "request (Resolves job_list) = resp_json job_list"
    using request_outcomes[of job_list] h3 by blast
  have t4: "request (Resolves job_list) = Inr (JArr [])"
    using t3 by (simp add: job_list_def)
  have t5: "\<exists>r'. Resolves job_list = Resolves r' \<and> ok r'"
    using request_outcomes[of _ _ "Resolves job_list" "JArr []"] t4 by blast
  show ?thesis using h1 h2 h3 t1 t2 t3 t4 t5 by blast
qed

text \<open>
  C10 as stated fails: a response with status 200 whose body is the JSON text
  \<^verbatim>\<open>null\<close> makes the request return \<^verbatim>\<open>null\<close>, so \<^verbatim>\<open>null\<close> is not returned for
  status 204 only; and an ok response whose body is not JSON makes the request throw
  instead of returning a parsed body.
\<close>

theorem null_body_with_status_200:
  "ok null_body \<and> resp_status null_body \<noteq> 204 \<and> request (Resolves null_body) = Inr JNull
   \<and> ok empty_body \<and> resp_status empty_body \<noteq> 204
   \<and> request (Resolves empty_body) = Inl SyntaxError"
  by (simp add: ok_def null_body_def empty_body_def request_def)

section \<open>Properties of the caption job subsystem\<close>

lemma with_status_fields [simp]:
  "completed_count (with_status j new now) = completed_count j"
  "failed_count (with_status j new now) = failed_count j"
  "skipped_count (with_status j new now) = skipped_count j"
  "total_count (with_status j new now) = total_count j"
  "work_list (with_status j new now) = work_list j"
  "recovery_payload (with_status j new now) = recovery_payload j"
  "last_error (with_status j new now) = last_error j"
  "current_status (with_status j new now) = new"
  by (cases new; simp add: with_status_def)+

lemma processed_with_status [simp]:
  "processed_count (with_status j new now) = processed_count j"
  by (simp add: processed_count_def)

lemma consistent_with_status [simp]:
  "consistent (with_status j new now) xs = consistent j xs"
  by (simp add: consistent_def)

lemma consistent_no_flight: "consistent j xs \<Longrightarrow> consistent j []"
  by (auto simp: consistent_def)

lemma record_outcome_fields [simp]:
  "total_count (record_outcome j item outcome) = total_count j"
  "work_list (record_outcome j item outcome) = work_list j"
  "recovery_payload (record_outcome j item outcome) = recovery_payload j @ [(item, outcome)]"
  "current_status (record_outcome j item outcome) = current_status j"
  "processed_count (record_outcome j item outcome) = processed_count j + 1"
  by (cases outcome; simp add: record_outcome_def processed_count_def)+

lemma consistent_record:
  "consistent j xs \<Longrightarrow> item \<in> set xs \<Longrightarrow> consistent (record_outcome j item outcome) (removeAll item xs)"
  by (auto simp: consistent_def distinct_removeAll)

lemma next_item_Some:
  "next_item j xs = Some item \<Longrightarrow>
     item \<in> set (work_list j) \<and> item \<notin> fst ` set (recovery_payload j) \<and> item \<notin> set xs"
proof -
  assume a: "next_item j xs = Some item"
  let ?f = "filter (\<lambda>item. item \<notin> fst ` set (recovery_payload j) \<and> item \<notin> set xs) (work_list j)"
  from a obtain rest where "?f = item # rest"
    by (auto simp: next_item_def split: list.splits)
  then have "item \<in> set ?f" by simp
  then show ?thesis by auto
qed

lemma consistent_dispatch:
  "consistent j xs \<Longrightarrow> next_item j xs = Some item \<Longrightarrow> consistent j (xs @ [item])"
  by (drule next_item_Some) (auto simp: consistent_def)



lemma job_ok_new: "job_ok (new_job items now) (Some [])"
  by (simp add: job_ok_def consistent_def new_job_def processed_count_def)

lemma job_ok_paused: "job_ok j r \<Longrightarrow> job_ok (with_status j Paused now) r"
  by (simp add: job_ok_def)

lemma job_ok_cancelled: "job_ok j r \<Longrightarrow> job_ok (with_status j Cancelled now) r"
  by (simp add: job_ok_def)

lemma job_ok_running: "job_ok j r \<Longrightarrow> r \<noteq> None \<Longrightarrow> job_ok (with_status j Running now) r"
  by (simp add: job_ok_def)

lemma job_ok_resumed:
  "job_ok j r \<Longrightarrow>
   job_ok (with_status j Running now) (Some (case r of None \<Rightarrow> [] | Some items \<Rightarrow> items))"
  by (cases r) (simp_all add: job_ok_def)

lemma job_ok_completed:
  "job_ok j r \<Longrightarrow> processed_count j = total_count j \<Longrightarrow> job_ok (with_status j Completed now) None"
  by (auto simp: job_ok_def dest: consistent_no_flight)

lemma job_ok_failed:
  "job_ok j r \<Longrightarrow> job_ok ((with_status j Failed now)\<lparr>last_error := e\<rparr>) None"
  by (auto simp: job_ok_def consistent_def processed_count_def)

lemma job_ok_recovered: "job_ok j r \<Longrightarrow> job_ok (recover_job j now) None"
  by (auto simp: job_ok_def recover_job_def active_def dest: consistent_no_flight)

lemma job_ok_dispatched:
  "job_ok j (Some xs) \<Longrightarrow> next_item j xs = Some item \<Longrightarrow> job_ok j (Some (xs @ [item]))"
  by (simp add: job_ok_def consistent_dispatch)

lemma job_ok_reported:
  "job_ok j (Some xs) \<Longrightarrow> item \<in> set xs \<Longrightarrow>
   job_ok (record_outcome j item outcome) (Some (removeAll item xs))"
  by (simp add: job_ok_def consistent_record)

lemma invariant_startup: "invariant startup"
  by (simp add: invariant_def startup_def)

lemma invariant_startJob: "invariant m \<Longrightarrow> invariant (snd (startJob m job_id items now))"
  by (auto simp: invariant_def startJob_def create_def job_ok_new)

lemma invariant_begin_run: "invariant m \<Longrightarrow> invariant (begin_run m job_id now)"
  by (auto simp: invariant_def begin_run_def setStatus_def job_ok_running split: option.splits)

lemma invariant_pause: "invariant m \<Longrightarrow> invariant (snd (pause m job_id now))"
  by (auto simp: invariant_def pause_def setStatus_def job_ok_paused split: option.splits)

lemma invariant_resume: "invariant m \<Longrightarrow> invariant (snd (resume m job_id now))"
  by (auto simp: invariant_def resume_def setStatus_def status_of_def job_ok_resumed
        split: option.splits if_splits)

lemma invariant_cancel: "invariant m \<Longrightarrow> invariant (snd (cancel m job_id now))"
  by (auto simp: invariant_def cancel_def setStatus_def job_ok_cancelled split: option.splits)

lemma invariantD: "invariant m \<Longrightarrow> store m job_id = Some j \<Longrightarrow> job_ok j (runners m job_id)"
  by (simp add: invariant_def)

lemma invariant_dispatch:
  assumes "invariant m" shows "invariant (dispatch limit m job_id)"
  unfolding invariant_def
proof (intro allI impI)
  fix i j assume s: "store (dispatch limit m job_id) i = Some j"
  have st: "store (dispatch limit m job_id) = store m"
    by (simp add: dispatch_def split: option.splits)
  from s st have ok: "job_ok j (runners m i)" using assms by (simp add: invariantD)
  show "job_ok j (runners (dispatch limit m job_id) i)"
  proof (cases "i = job_id")
    case False
    then have "runners (dispatch limit m job_id) i = runners m i"
      by (simp add: dispatch_def split: option.splits)
    with ok show ?thesis by simp
  next
    case True
    with s st ok show ?thesis
      by (auto simp: dispatch_def job_ok_dispatched split: option.splits)
  qed
qed

lemma invariant_report:
  assumes "invariant m" shows "invariant (report m job_id item outcome)"
  unfolding invariant_def
proof (intro allI impI)
  fix i j assume s: "store (report m job_id item outcome) i = Some j"
  show "job_ok j (runners (report m job_id item outcome) i)"
  proof (cases "i = job_id")
    case False
    then have "runners (report m job_id item outcome) i = runners m i"
      and "store (report m job_id item outcome) i = store m i"
      by (simp_all add: report_def applyProgress_def split: option.splits)
    with s show ?thesis using assms by (simp add: invariantD)
  next
    case True
    show ?thesis
    proof (cases "\<exists>xs. runners m job_id = Some xs \<and> item \<in> set xs")
      case False
      then have "report m job_id item outcome = m"
        by (auto simp: report_def split: option.splits)
      with s show ?thesis using assms by (simp add: invariantD)
    next
      case True
      then obtain xs where xs: "runners m job_id = Some xs" "item \<in> set xs" by blast
      from s \<open>i = job_id\<close> xs obtain j0 where j0: "store m job_id = Some j0"
        and j: "j = record_outcome j0 item outcome"
        by (auto simp: report_def applyProgress_def split: option.splits)
      from assms j0 xs have "job_ok j0 (Some xs)" by (metis invariantD)
      then have "job_ok j (Some (removeAll item xs))" unfolding j using xs(2) by (rule job_ok_reported)
      then show ?thesis using \<open>i = job_id\<close> xs by (simp add: report_def)
    qed
  qed
qed

lemma invariant_complete:
  assumes "invariant m" shows "invariant (complete m job_id now)"
  unfolding invariant_def
proof (intro allI impI)
  fix i j assume s: "store (complete m job_id now) i = Some j"
  show "job_ok j (runners (complete m job_id now) i)"
  proof (cases "\<exists>j0. store m job_id = Some j0 \<and> current_status j0 = Running
                  \<and> runners m job_id \<noteq> None \<and> processed_count j0 = total_count j0")
    case False
    then have "complete m job_id now = m"
      by (auto simp: complete_def split: option.splits)
    with s show ?thesis using assms by (simp add: invariantD)
  next
    case True
    then obtain j0 where j0: "store m job_id = Some j0" "current_status j0 = Running"
      "runners m job_id \<noteq> None" "processed_count j0 = total_count j0" by blast
    then have c: "complete m job_id now =
       m\<lparr>store := (store m)(job_id \<mapsto> with_status j0 Completed now),
         runners := (runners m)(job_id := None)\<rparr>"
      by (simp add: complete_def setStatus_def)
    show ?thesis
    proof (cases "i = job_id")
      case True
      with s c have "j = with_status j0 Completed now" by simp
      moreover have "job_ok j0 (runners m job_id)" using assms j0(1) by (rule invariantD)
      ultimately show ?thesis using True c j0(4) by (simp add: job_ok_completed)
    next
      case False
      with s c show ?thesis using assms by (simp add: invariantD)
    qed
  qed
qed

lemma invariant_fail_run:
  assumes "invariant m" shows "invariant (fail_run m job_id msg now)"
  unfolding invariant_def
proof (intro allI impI)
  fix i j assume s: "store (fail_run m job_id msg now) i = Some j"
  show "job_ok j (runners (fail_run m job_id msg now) i)"
  proof (cases "\<exists>j0. store m job_id = Some j0 \<and> current_status j0 = Running
                  \<and> runners m job_id \<noteq> None")
    case False
    then have "fail_run m job_id msg now = m"
      by (auto simp: fail_run_def split: option.splits)
    with s show ?thesis using assms by (simp add: invariantD)
  next
    case True
    then obtain j0 where j0: "store m job_id = Some j0" "current_status j0 = Running"
      "runners m job_id \<noteq> None" by blast
    then have c: "fail_run m job_id msg now =
       m\<lparr>store := (store m)(job_id \<mapsto> (with_status j0 Failed now)\<lparr>last_error := Some msg\<rparr>),
         runners := (runners m)(job_id := None)\<rparr>"
      by (simp add: fail_run_def)
    show ?thesis
    proof (cases "i = job_id")
      case True
      with s c have "j = (with_status j0 Failed now)\<lparr>last_error := Some msg\<rparr>" by simp
      moreover have "job_ok j0 (runners m job_id)" using assms j0(1) by (rule invariantD)
      ultimately show ?thesis using True c by (simp add: job_ok_failed)
    next
      case False
      with s c show ?thesis using assms by (simp add: invariantD)
    qed
  qed
qed

lemma invariant_restart:
  assumes "invariant m" shows "invariant (restart m now)"
  unfolding invariant_def
proof (intro allI impI)
  fix i j assume s: "store (restart m now) i = Some j"
  then obtain j0 where j0: "store m i = Some j0" and j: "j = recover_job j0 now"
    by (auto simp: restart_def recover_def)
  from assms j0 have "job_ok j0 (runners m i)" by (rule invariantD)
  then have "job_ok j None" unfolding j by (rule job_ok_recovered)
  then show "job_ok j (runners (restart m now) i)" by (simp add: restart_def recover_def)
qed

lemma invariant_apply_event: "invariant m \<Longrightarrow> invariant (apply_event limit m e)"
  by (cases e)
     (simp_all add: invariant_startJob invariant_begin_run invariant_pause invariant_resume
        invariant_cancel invariant_dispatch invariant_report invariant_complete
        invariant_fail_run invariant_restart)

lemma invariant_foldl: "invariant m \<Longrightarrow> invariant (foldl (apply_event limit) m events)"
  by (induction events arbitrary: m) (simp_all add: invariant_apply_event)

lemma invariant_run: "invariant (run limit events)"
  by (simp add: run_def invariant_foldl invariant_startup)


lemma parked_step:
  assumes "parked m job_id j0" and "\<forall>t. e \<noteq> Resume job_id t"
  shows "parked (apply_event limit m e) job_id j0"
proof (cases e)
  case (StartJob i items t)
  with assms show ?thesis
    by (auto simp: parked_def startJob_def create_def split: option.splits)
next
  case (BeginRun i t)
  with assms show ?thesis
    by (auto simp: parked_def begin_run_def status_of_def setStatus_def split: option.splits if_splits)
next
  case (Pause i t)
  with assms show ?thesis
    by (auto simp: parked_def pause_def status_of_def setStatus_def split: option.splits if_splits)
next
  case (Resume i t)
  with assms have "i \<noteq> job_id" by auto
  with Resume assms show ?thesis
    by (auto simp: parked_def resume_def status_of_def setStatus_def split: option.splits if_splits)
next
  case (Cancel i t)
  with assms show ?thesis
    by (auto simp: parked_def cancel_def status_of_def setStatus_def terminal_def
          split: option.splits if_splits)
next
  case (Dispatch i)
  with assms show ?thesis
    by (auto simp: parked_def dispatch_def split: option.splits if_splits)
next
  case (Report i item outcome)
  with assms show ?thesis
    by (auto simp: parked_def report_def applyProgress_def split: option.splits if_splits)
next
  case (Complete i t)
  with assms show ?thesis
    by (auto simp: parked_def complete_def setStatus_def split: option.splits if_splits)
next
  case (FailRun i msg t)
  with assms show ?thesis
    by (auto simp: parked_def fail_run_def split: option.splits if_splits)
next
  case (Restart t)
  with assms show ?thesis
    by (auto simp: parked_def restart_def recover_def recover_job_def active_def
          split: option.splits if_splits)
qed

lemma parked_foldl:
  "parked m job_id j0 \<Longrightarrow> \<forall>t. Resume job_id t \<notin> set events \<Longrightarrow>
   parked (foldl (apply_event limit) m events) job_id j0"
proof (induction events arbitrary: m)
  case Nil
  then show ?case by simp
next
  case (Cons e events)
  from Cons.prems have "parked (apply_event limit m e) job_id j0"
    by (intro parked_step) auto
  then show ?case using Cons.prems by (auto intro: Cons.IH)
qed

lemma parked_recover:
  "st job_id = Some j \<Longrightarrow> current_status j = Running \<Longrightarrow> parked (recover st now) job_id j"
  by (simp add: parked_def recover_def recover_job_def active_def)

text \<open>
  C6. The recovery step turns every job that the store has as running into a paused
  job, with its counters, work list and recovery payload as they were. It does not resume
  the job: no runner is created, nothing is dispatched, and whatever happens next, as long
  as no resume is requested for the job, it stays paused (or is cancelled) with the same
  counters.
\<close>

theorem recovery_pauses_running_jobs:
  assumes "st job_id = Some j" and "current_status j = Running"
  shows "\<exists>j'. store (recover st now) job_id = Some j'
           \<and> current_status j' = Paused
           \<and> completed_count j' = completed_count j
           \<and> failed_count j' = failed_count j
           \<and> skipped_count j' = skipped_count j
           \<and> total_count j' = total_count j
           \<and> recovery_payload j' = recovery_payload j
           \<and> work_list j' = work_list j
           \<and> runners (recover st now) job_id = None
           \<and> status_of (recover st now) job_id = Some Paused
           \<and> dispatch limit (recover st now) job_id = recover st now
           \<and> (\<forall>events. (\<forall>t. Resume job_id t \<notin> set events) \<longrightarrow>
                  parked (foldl (apply_event limit) (recover st now) events) job_id j)"
proof -
  have "parked (foldl (apply_event limit) (recover st now) events) job_id j"
    if "\<forall>t. Resume job_id t \<notin> set events" for events
    using parked_recover[of st job_id j now, OF assms] that by (rule parked_foldl)
  then show ?thesis
    using assms
    by (simp add: recover_def recover_job_def active_def dispatch_def status_of_def)
qed

text \<open>
  The scenario of the specification: the process restarts while a job is running with
  two of five items done. The theorem applies: the job is paused with its two completed
  items intact, and it is still parked after a dispatch, a report and a pause request.
\<close>

theorem recovery_pauses_running_jobs_witness:
  "store (run 2 two_of_five) 1 = Some two_of_five_job
   \<and> current_status two_of_five_job = Running
   \<and> (\<exists>j'. store (recover (store (run 2 two_of_five)) 9) 1 = Some j'
           \<and> current_status j' = Paused
           \<and> completed_count j' = 2
           \<and> total_count j' = 5
           \<and> runners (recover (store (run 2 two_of_five)) 9) 1 = None)
   \<and> parked (foldl (apply_event 2) (recover (store (run 2 two_of_five)) 9)
               [Dispatch 1, Report 1 12 (Generated ''a bird''), Pause 1 10])
        1 two_of_five_job"
proof -
  have h1: "store (run 2 two_of_five) 1 = Some two_of_five_job"
    by code_simp
  have h2: "current_status two_of_five_job = Running"
    by (simp add: two_of_five_job_def)
  have c: "completed_count two_of_five_job = 2" "total_count two_of_five_job = 5"
    by (simp_all add: two_of_five_job_def)
  have r: "\<forall>t. Resume 1 t \<notin> set [Dispatch 1, Report 1 12 (Generated ''a bird''), Pause 1 10]"
    by simp
  from recovery_pauses_running_jobs[of "store (run 2 two_of_five)" 1 two_of_five_job 9 2,
         OF h1 h2]
  obtain j' where "store (recover (store (run 2 two_of_five)) 9) 1 = Some j'"
    "current_status j' = Paused" "completed_count j' = completed_count two_of_five_job"
    "total_count j' = total_count two_of_five_job"
    "runners (recover (store (run 2 two_of_five)) 9) 1 = None"
    and p: "\<forall>events. (\<forall>t. Resume 1 t \<notin> set events) \<longrightarrow>
              parked (foldl (apply_event 2) (recover (store (run 2 two_of_five)) 9) events)
                1 two_of_five_job"
    by blast
  moreover from p r
  have "parked (foldl (apply_event 2) (recover (store (run 2 two_of_five)) 9)
                  [Dispatch 1, Report 1 12 (Generated ''a bird''), Pause 1 10])
          1 two_of_five_job"
    by blast
  ultimately show ?thesis using h1 h2 c by auto
qed

text \<open>
  C7. At every reachable state, a resume of a job that is not paused and a pause of a
  job that is not running change nothing (status, counters and recovery payload stay as
  they are, as does everything else) and report \<^verbatim>\<open>InvalidTransition\<close> as a value.
\<close>

theorem invalid_transition_is_noop:
  assumes "store (run limit events) job_id = Some j"
  shows "(current_status j \<noteq> Paused \<longrightarrow>
            resume (run limit events) job_id now = (Some InvalidTransition, run limit events))
       \<and> (current_status j \<noteq> Running \<longrightarrow>
            pause (run limit events) job_id now = (Some InvalidTransition, run limit events))"
proof -
  have "job_ok j (runners (run limit events) job_id)"
    using invariant_run assms by (rule invariantD)
  then have "status_of (run limit events) job_id = Some (current_status j)"
    using assms by (auto simp: status_of_def job_ok_def)
  then show ?thesis by (simp add: resume_def pause_def)
qed

text \<open>
  A running job cannot be resumed and a completed job can be neither resumed nor
  paused: the theorem applies to both.
\<close>

theorem invalid_transition_is_noop_witness:
  "store (run 2 two_of_five) 1 = Some two_of_five_job
   \<and> current_status two_of_five_job \<noteq> Paused
   \<and> resume (run 2 two_of_five) 1 7 = (Some InvalidTransition, run 2 two_of_five)
   \<and> store (run 2 both_done) 1 = Some both_done_job
   \<and> current_status both_done_job \<noteq> Running
   \<and> pause (run 2 both_done) 1 7 = (Some InvalidTransition, run 2 both_done)"
proof -
  have h1: "store (run 2 two_of_five) 1 = Some two_of_five_job"
    by code_simp
  have h2: "current_status two_of_five_job \<noteq> Paused"
    by (simp add: two_of_five_job_def)
  have h3: "store (run 2 both_done) 1 = Some both_done_job"
    by code_simp
  have h4: "current_status both_done_job \<noteq> Running"
    by (simp add: both_done_job_def)
  show ?thesis
    using h1 h2 h3 h4 invalid_transition_is_noop[OF h1, of 7]
      invalid_transition_is_noop[OF h3, of 7]
    by blast
qed

end
